theory Spec2Isabelle
  imports Main "HOL-Library.AList"
begin

section \<open>Strings as the Python code handles them\<close>

text \<open>
  A user identity reaches the Gateway as the value of the header \<open>X-User-ID\<close>; header
  values are decoded as Latin-1, so every character of an identity is a code point below
  256, which is what a \<^typ>\<open>char\<close> holds. \<open>str.lower()\<close> on such a character maps
  \<open>A-Z\<close> to \<open>a-z\<close> and the upper-case letters of the Latin-1 supplement (\<open>0xC0-0xDE\<close>
  without the multiplication sign \<open>0xD7\<close>) to their lower-case forms, 32 code points up.
\<close>

definition lower_char :: "char \<Rightarrow> char" where
  "lower_char c =
     (let n = (of_char c :: nat) in
      if (65 \<le> n \<and> n \<le> 90) \<or> (192 \<le> n \<and> n \<le> 222 \<and> n \<noteq> 215)
      then char_of (n + 32) else c)"

definition lower :: "string \<Rightarrow> string" where
  "lower text = map lower_char text"

text \<open>The character class \<open>[a-z0-9]\<close> of the regular expression.\<close>

definition is_az09 :: "char \<Rightarrow> bool" where
  "is_az09 c =
     (let n = (of_char c :: nat) in (97 \<le> n \<and> n \<le> 122) \<or> (48 \<le> n \<and> n \<le> 57))"

text \<open>\<open>re.sub(r'[^a-z0-9]', '-', s)\<close>: every character outside the class becomes a dash,
  one for one.\<close>

definition re_sub_dash :: "string \<Rightarrow> string" where
  "re_sub_dash s = map (\<lambda>c. if is_az09 c then c else CHR ''-'') s"

text \<open>\<open>s.strip('-')\<close>: leading and trailing dashes are removed.\<close>

definition strip_dash :: "string \<Rightarrow> string" where
  "strip_dash s =
     rev (dropWhile (\<lambda>c. c = CHR ''-'') (rev (dropWhile (\<lambda>c. c = CHR ''-'') s)))"

text \<open>\<open>key.split(":")[-1]\<close>: the part of the key after its last colon (the whole key when
  it has none).\<close>

definition split_last :: "string \<Rightarrow> string" where
  "split_last key = rev (takeWhile (\<lambda>c. c \<noteq> CHR '':'') (rev key))"

section \<open>Sandbox names\<close>

text \<open>\<open>worker.py\<close>, \<open>sanitize_k8s_name\<close> (lines 27-31).\<close>

definition sanitize_k8s_name :: "string \<Rightarrow> string" where
  "sanitize_k8s_name text =
     (let safe_text = lower text;
          safe_text = re_sub_dash safe_text;
          safe_text = strip_dash safe_text
      in if safe_text \<noteq> [] then safe_text else ''anonymous'')"

text \<open>\<open>worker.py\<close>, \<open>on_message_callback\<close> (lines 73-75): the record key and the sandbox
  name the Worker computes for an identity.\<close>

definition session_key :: "string \<Rightarrow> string" where
  "session_key user_id = ''session:'' @ user_id"

definition worker_pod_name :: "string \<Rightarrow> string" where
  "worker_pod_name user_id = (let safe_id = sanitize_k8s_name user_id in ''session-'' @ safe_id)"

text \<open>\<open>reaper.py\<close>, \<open>main\<close> (lines 66-72): the sandbox name the Reaper computes from a record
  key. The identity is taken from the key, and the sanitization is written out inline.\<close>

definition reaper_pod_name :: "string \<Rightarrow> string" where
  "reaper_pod_name key =
     (let user_id = split_last key;
          safe_id = strip_dash (re_sub_dash (lower user_id))
      in ''session-'' @ safe_id)"

section \<open>Integers as text\<close>

text \<open>The store holds text: an integer written to it is stored as its decimal digits
  (\<open>dec\<close>), and the Reaper reads it back with Python's \<open>int(s)\<close> (\<open>py_int\<close>), which
  accepts surrounding white space, one sign, and decimal digits that single underscores
  may separate, and raises \<open>ValueError\<close> on anything else.\<close>

function dec :: "nat \<Rightarrow> string" where
  "dec n = (if n < 10 then [char_of (48 + n)] else dec (n div 10) @ [char_of (48 + n mod 10)])"
  by pat_completeness auto
termination
  by (relation "measure (\<lambda>n. n)") auto

declare dec.simps [simp del]

definition is_digit :: "char \<Rightarrow> bool" where
  "is_digit c = (let n = (of_char c :: nat) in 48 \<le> n \<and> n \<le> 57)"

definition digit_val :: "char \<Rightarrow> nat" where
  "digit_val c = of_char c - 48"

definition is_space :: "char \<Rightarrow> bool" where
  "is_space c =
     (let n = (of_char c :: nat) in (9 \<le> n \<and> n \<le> 13) \<or> n = 32 \<or> n = 133 \<or> n = 160)"

definition strip_space :: "string \<Rightarrow> string" where
  "strip_space s = rev (dropWhile is_space (rev (dropWhile is_space s)))"

fun parse_digits :: "nat \<Rightarrow> string \<Rightarrow> nat option" where
  "parse_digits acc [] = Some acc"
| "parse_digits acc [c] = (if is_digit c then Some (acc * 10 + digit_val c) else None)"
| "parse_digits acc (c # d # cs) =
     (if is_digit c then parse_digits (acc * 10 + digit_val c) (d # cs)
      else if c = CHR ''_'' \<and> is_digit d then parse_digits (acc * 10 + digit_val d) cs
      else None)"

definition parse_nat :: "string \<Rightarrow> nat option" where
  "parse_nat s =
     (case s of [] \<Rightarrow> None
      | c # cs \<Rightarrow> if is_digit c then parse_digits (digit_val c) cs else None)"

definition py_int :: "string \<Rightarrow> int option" where
  "py_int s =
     (case strip_space s of [] \<Rightarrow> None
      | c # cs \<Rightarrow>
          if c = CHR ''-'' then map_option (\<lambda>n. - int n) (parse_nat cs)
          else if c = CHR ''+'' then map_option int (parse_nat cs)
          else map_option int (parse_nat (c # cs)))"

section \<open>The state store\<close>

text \<open>
  The store maps a key to a hash of text fields. A key with no field does not exist:
  reading it gives the empty hash, and the first write creates it. Both levels are
  association lists, so the keys can be scanned.
\<close>

type_synonym hash = "(string \<times> string) list"
type_synonym redis = "(string \<times> hash) list"

definition hash_at :: "redis \<Rightarrow> string \<Rightarrow> hash" where
  "hash_at r key = (case map_of r key of None \<Rightarrow> [] | Some h \<Rightarrow> h)"

text \<open>The write commands the three components issue: \<open>hset(key, field, value)\<close>,
  \<open>hset(key, mapping=...)\<close> and \<open>delete(key)\<close>.\<close>

datatype cmd =
    HSet string string string
  | HSetMapping string "(string \<times> string) list"
  | Del string

fun exec_cmd :: "cmd \<Rightarrow> redis \<Rightarrow> redis" where
  "exec_cmd (HSet key field v) r = AList.update key (AList.update field v (hash_at r key)) r"
| "exec_cmd (HSetMapping key m) r =
     AList.update key (fold (\<lambda>(field, v). AList.update field v) m (hash_at r key)) r"
| "exec_cmd (Del key) r = AList.delete key r"

section \<open>Exceptions, events and the world\<close>

datatype exn =
    ConnectionError   \<comment> \<open>\<open>redis.exceptions.ConnectionError\<close>\<close>
  | DataError         \<comment> \<open>\<open>redis.exceptions.DataError\<close>: a value the client cannot encode\<close>
  | ApiException int  \<comment> \<open>\<open>kubernetes.client.rest.ApiException\<close> with its HTTP status\<close>
  | RequestError      \<comment> \<open>\<open>httpx.RequestError\<close>, of which \<open>httpx.ConnectError\<close> is a subclass\<close>
  | OtherError        \<comment> \<open>any other exception\<close>

text \<open>What a component does to the outside, in order.\<close>

datatype event =
    Enter                         \<comment> \<open>the Gateway handler is entered\<close>
  | Write cmd                     \<comment> \<open>a write command the store has executed\<close>
  | Publish string "exn option"   \<comment> \<open>the message \<open>{"id": user_id}\<close> handed to the broker, and what that raised\<close>
  | Proxy string                  \<comment> \<open>a request sent to the target URL\<close>
  | Sleep nat                     \<comment> \<open>a sleep, in milliseconds\<close>
  | Ack                           \<comment> \<open>\<open>basic_ack\<close> of the delivered message\<close>
  | ReadPod string
  | CreatePod string
  | WatchPod string
  | DeletePod string "exn option" \<comment> \<open>the delete call and what it raised\<close>

text \<open>
  The store is shared, and the store can fail. Each store call of a component takes one
  step of a script: time passes (\<open>elapse\<close>, in milliseconds), the other components' write
  commands of the meantime take effect (\<open>interfere\<close>), and the call either raises
  (\<open>raises\<close>) or is executed. When the script is used up the component is alone: no time
  passes, nothing interferes and nothing fails.
\<close>

record step =
  interfere :: "cmd list"
  elapse :: nat
  raises :: "exn option"

record world =
  store :: redis
  now :: nat                   \<comment> \<open>\<open>time.time()\<close>, in milliseconds\<close>
  script :: "step list"
  trace :: "event list"

definition unix_time :: "world \<Rightarrow> nat" where
  \<comment> \<open>\<open>int(time.time())\<close>\<close>
  "unix_time w = now w div 1000"

definition emit :: "event \<Rightarrow> world \<Rightarrow> world" where
  "emit e w = w\<lparr>trace := trace w @ [e]\<rparr>"

definition store_call :: "world \<Rightarrow> exn option \<times> world" where
  "store_call w =
     (case script w of
        [] \<Rightarrow> (None, w)
      | s # rest \<Rightarrow>
          (raises s,
           w\<lparr>store := fold exec_cmd (interfere s) (store w),
             now := now w + elapse s,
             script := rest\<rparr>))"

definition hgetall :: "string \<Rightarrow> world \<Rightarrow> (exn + hash) \<times> world" where
  "hgetall key w =
     (case store_call w of
        (Some e, w') \<Rightarrow> (Inl e, w')
      | (None, w') \<Rightarrow> (Inr (hash_at (store w') key), w'))"

definition hget :: "string \<Rightarrow> string \<Rightarrow> world \<Rightarrow> (exn + string option) \<times> world" where
  "hget key field w =
     (case store_call w of
        (Some e, w') \<Rightarrow> (Inl e, w')
      | (None, w') \<Rightarrow> (Inr (map_of (hash_at (store w') key) field), w'))"

definition keys :: "string \<Rightarrow> world \<Rightarrow> (exn + string list) \<times> world" where
  \<comment> \<open>\<open>keys(prefix + "*")\<close>\<close>
  "keys pfx w =
     (case store_call w of
        (Some e, w') \<Rightarrow> (Inl e, w')
      | (None, w') \<Rightarrow>
          (Inr (filter (\<lambda>k. take (length pfx) k = pfx) (map fst (store w'))), w'))"

text \<open>A write: the command is built when the call is made (a value \<open>int(time.time())\<close> is
  the time of the call), executed by the store, and recorded.\<close>

definition store_write :: "(world \<Rightarrow> cmd) \<Rightarrow> world \<Rightarrow> (exn + unit) \<times> world" where
  "store_write mk w =
     (case store_call w of
        (Some e, w') \<Rightarrow> (Inl e, w')
      | (None, w') \<Rightarrow>
          (Inr (), emit (Write (mk w')) (w'\<lparr>store := exec_cmd (mk w') (store w')\<rparr>)))"

section \<open>The Reaper\<close>

definition IDLE_TIMEOUT_SECONDS :: int where
  "IDLE_TIMEOUT_SECONDS = 600"

text \<open>
  \<open>reaper.py\<close>, \<open>main\<close>, the body of the loop over the scanned keys (lines 54-96).
  \<open>delete_namespaced_pod\<close> is the orchestrator's answer to a delete by name: \<open>None\<close> when
  the call returns, the exception when it raises. Every exception inside the body is
  caught by the body's own handler, which logs it and goes on to the next key.
\<close>

definition reap_key :: "(string \<Rightarrow> exn option) \<Rightarrow> int \<Rightarrow> string \<Rightarrow> world \<Rightarrow> world" where
  "reap_key delete_namespaced_pod current_time key w =
     (case hget key ''last_active'' w of
        (Inl e, w1) \<Rightarrow> w1
      | (Inr last_active_str, w1) \<Rightarrow>
          (case last_active_str of
             None \<Rightarrow> w1
           | Some s \<Rightarrow>
               if s = [] then w1
               else
                 (case py_int s of
                    None \<Rightarrow> w1
                  | Some last_active \<Rightarrow>
                      (let idle_time = current_time - last_active in
                       if idle_time > IDLE_TIMEOUT_SECONDS then
                         (let pod_name = reaper_pod_name key;
                              result = delete_namespaced_pod pod_name;
                              w2 = emit (DeletePod pod_name result) w1
                          in case result of
                               None \<Rightarrow> snd (store_write (\<lambda>_. Del key) w2)
                             | Some (ApiException status) \<Rightarrow>
                                 if status = 404 then snd (store_write (\<lambda>_. Del key) w2) else w2
                             | Some e \<Rightarrow> w2)
                       else w1))))"

text \<open>One tick (lines 43-101): scan the keys, read the clock once, visit every key. When
  the scan itself raises, the tick does nothing more.\<close>

definition reaper_tick :: "(string \<Rightarrow> exn option) \<Rightarrow> world \<Rightarrow> world" where
  "reaper_tick delete_namespaced_pod w =
     (case keys ''session:'' w of
        (Inl e, w1) \<Rightarrow> w1
      | (Inr session_keys, w1) \<Rightarrow>
          (let current_time = int (unix_time w1)
           in fold (reap_key delete_namespaced_pod current_time) session_keys w1))"

text \<open>The events a component has added to the trace between two worlds.\<close>

definition events_since :: "world \<Rightarrow> world \<Rightarrow> event list" where
  "events_since w w' = drop (length (trace w)) (trace w')"

section \<open>The Lifecycle Worker\<close>

text \<open>A decoded message body. The callback only tests the value of \<open>id\<close> for truth and
  uses it as text, so a number is an integer here; a decoded object has each key once.\<close>

datatype json =
    JNull
  | JBool bool
  | JNumber int
  | JString string
  | JArray "json list"
  | JObject "(string \<times> json) list"

text \<open>\<open>not user_id\<close> for the result of \<open>data.get("id")\<close>.\<close>

fun truthy :: "json option \<Rightarrow> bool" where
  "truthy None = False"
| "truthy (Some JNull) = False"
| "truthy (Some (JBool b)) = b"
| "truthy (Some (JNumber n)) = (n \<noteq> 0)"
| "truthy (Some (JString s)) = (s \<noteq> [])"
| "truthy (Some (JArray xs)) = (xs \<noteq> [])"
| "truthy (Some (JObject items)) = (items \<noteq> [])"

text \<open>\<open>pod.status\<close>: the two fields the Worker reads, either of which may be \<open>None\<close>.\<close>

record pod_status =
  status_phase :: "string option"
  status_pod_ip :: "string option"

text \<open>
  What lies outside the Worker and is not the store: the JSON decoder (\<open>None\<close> when
  \<open>json.loads\<close> raises) and the orchestrator's answers by sandbox name. A watch delivers
  its events and then either ends (\<open>None\<close>, the 60 seconds are over) or raises.
\<close>

record wk_env =
  json_loads :: "string \<Rightarrow> json option"
  read_namespaced_pod :: "string \<Rightarrow> exn + pod_status"
  create_namespaced_pod :: "string \<Rightarrow> exn option"
  watch_stream :: "string \<Rightarrow> pod_status list \<times> exn option"

text \<open>\<open>worker.py\<close>, \<open>wait_for_pod_ready\<close> (lines 53-61).\<close>

definition wait_for_pod_ready :: "wk_env \<Rightarrow> string \<Rightarrow> exn + string option" where
  "wait_for_pod_ready env pod_name =
     (case watch_stream env pod_name of
        (events, ending) \<Rightarrow>
          (case find (\<lambda>pod. status_phase pod = Some ''Running'' \<and>
                             status_pod_ip pod \<noteq> None \<and> status_pod_ip pod \<noteq> Some []) events of
             Some pod \<Rightarrow> Inr (status_pod_ip pod)
           | None \<Rightarrow> (case ending of Some e \<Rightarrow> Inl e | None \<Rightarrow> Inr None)))"

text \<open>The write of \<open>status=ready\<close>, the address and \<open>last_active\<close> in one command (lines 85
  and 93).\<close>

definition put_ready :: "string \<Rightarrow> string \<Rightarrow> world \<Rightarrow> (exn + unit) \<times> world" where
  "put_ready key ip w =
     store_write
       (\<lambda>w'. HSetMapping key
          [(''status'', ''ready''), (''ip'', ip), (''last_active'', dec (unix_time w'))]) w"

text \<open>
  \<open>worker.py\<close>, \<open>on_message_callback\<close>, lines 73-96: the part of the \<open>try\<close> block that runs
  once the identity is known to be a non-empty text. A \<open>None\<close> among the values of a
  mapping is refused by the store client before anything is sent (\<open>DataError\<close>). An
  exception raised inside the handler of the \<open>404\<close> (by the create or by the watch) leaves
  the block, as every other exception does.
\<close>

definition reconcile :: "wk_env \<Rightarrow> string \<Rightarrow> world \<Rightarrow> (exn + unit) \<times> world" where
  "reconcile env user_id w =
     (let key = session_key user_id;
          pod_name = worker_pod_name user_id;
          w1 = emit (ReadPod pod_name) w
      in case read_namespaced_pod env pod_name of
           Inr pod \<Rightarrow>
             if status_phase pod = Some ''Running'' then
               (case status_pod_ip pod of
                  None \<Rightarrow> (Inl DataError, w1)
                | Some ip \<Rightarrow> put_ready key ip w1)
             else (Inr (), w1)
         | Inl (ApiException status) \<Rightarrow>
             if status = 404 then
               (let w2 = emit (CreatePod pod_name) w1
                in case create_namespaced_pod env pod_name of
                     Some e \<Rightarrow> (Inl e, w2)
                   | None \<Rightarrow>
                       (let w3 = emit (WatchPod pod_name) w2
                        in case wait_for_pod_ready env pod_name of
                             Inl e \<Rightarrow> (Inl e, w3)
                           | Inr ip_opt \<Rightarrow>
                               (case ip_opt of
                                  None \<Rightarrow> store_write (\<lambda>_. HSet key ''status'' ''failed'') w3
                                | Some ip \<Rightarrow>
                                    if ip \<noteq> [] then put_ready key ip w3
                                    else store_write (\<lambda>_. HSet key ''status'' ''failed'') w3)))
             else (Inr (), w1)
         | Inl e \<Rightarrow> (Inl e, w1))"

text \<open>
  \<open>worker.py\<close>, \<open>on_message_callback\<close> (lines 65-101). Whatever the \<open>try\<close> block raises is
  logged, and the message is acknowledged: a body that does not decode
  (\<open>JSONDecodeError\<close>), a decoded value that is no object or an identity that is no text
  (\<open>AttributeError\<close>), and every exception of \<open>reconcile\<close>. An identity that is absent or
  falsy is acknowledged at once (lines 69-71).
\<close>

definition on_message_callback :: "wk_env \<Rightarrow> string \<Rightarrow> world \<Rightarrow> world" where
  "on_message_callback env body w =
     (case json_loads env body of
        None \<Rightarrow> emit Ack w
      | Some data \<Rightarrow>
          (case data of
             JObject items \<Rightarrow>
               (let user_id = map_of items ''id''
                in if \<not> truthy user_id then emit Ack w
                   else (case user_id of
                           Some (JString uid) \<Rightarrow> emit Ack (snd (reconcile env uid w))
                         | _ \<Rightarrow> emit Ack w))
           | _ \<Rightarrow> emit Ack w))"

section \<open>The Gateway\<close>

text \<open>A request, as far as the handler looks at it: the header \<open>X-User-ID\<close> and the path.
  Method, other headers, query and body are passed on to the upstream untouched.\<close>

record request =
  x_user_id :: "string option"
  url_path :: string

text \<open>A response built by the Gateway (content and status code), or the upstream's
  response streamed back with the upstream's status code.\<close>

datatype response =
    Response string nat
  | StreamingResponse nat

fun status_code :: "response \<Rightarrow> nat" where
  "status_code (Response content code) = code"
| "status_code (StreamingResponse code) = code"

text \<open>What lies outside the Gateway and is not the store: the broker (what publishing the
  message for an identity raises, if anything) and the upstream (for a target URL, the
  status code of its response, or the exception the client raises).\<close>

record gw_env =
  publish :: "string \<Rightarrow> exn option"
  upstream :: "string \<Rightarrow> exn + nat"

text \<open>\<open>f"{pod_ip}"\<close> for a value that may be \<open>None\<close>.\<close>

definition py_str :: "string option \<Rightarrow> string" where
  "py_str v = (case v of None \<Rightarrow> ''None'' | Some s \<Rightarrow> s)"

text \<open>\<open>gateway.py\<close>, \<open>proxy_request\<close> (lines 58-79).\<close>

definition proxy_request ::
  "gw_env \<Rightarrow> string option \<Rightarrow> request \<Rightarrow> world \<Rightarrow> (exn + response) \<times> world" where
  "proxy_request env pod_ip req w =
     (let target_url = ''http://'' @ py_str pod_ip @ '':80'' @ url_path req;
          w1 = emit (Proxy target_url) w
      in case upstream env target_url of
           Inr code \<Rightarrow> (Inr (StreamingResponse code), w1)
         | Inl RequestError \<Rightarrow> (Inr (Response ''Session pod not reachable.'' 503), w1)
         | Inl e \<Rightarrow> (Inl e, w1))"

text \<open>\<open>gateway.py\<close>, \<open>publish_creation_request\<close> (lines 81-106): the exception is logged and
  raised again.\<close>

definition publish_creation_request :: "gw_env \<Rightarrow> string \<Rightarrow> world \<Rightarrow> exn option \<times> world" where
  "publish_creation_request env user_id w =
     (let result = publish env user_id in (result, emit (Publish user_id result) w))"

text \<open>\<open>asyncio.sleep\<close>: the time passes.\<close>

definition sleep :: "nat \<Rightarrow> world \<Rightarrow> world" where
  "sleep ms w = emit (Sleep ms) (w\<lparr>now := now w + ms\<rparr>)"

text \<open>The handler's two \<open>except\<close> clauses (lines 170-174).\<close>

definition respond_to :: "exn \<Rightarrow> response" where
  "respond_to e =
     (if e = ConnectionError
      then Response ''Gateway service is down: Cannot connect to Redis.'' 503
      else Response ''An internal server error occurred'' 500)"

definition handled :: "(exn + response) \<times> world \<Rightarrow> response \<times> world" where
  "handled rw = (case rw of (Inl e, w) \<Rightarrow> (respond_to e, w) | (Inr r, w) \<Rightarrow> (r, w))"

lemma now_store_call: "now w \<le> now (snd (store_call w))"
  by (simp add: store_call_def split: list.splits)

lemma now_hget: "hget key field w = (r, w') \<Longrightarrow> now w \<le> now w'"
  using now_store_call [of w]
  by (auto simp: hget_def split: prod.splits option.splits)

text \<open>
  \<open>gateway.py\<close>, \<open>handle_all_requests\<close>, the long poll (lines 134-149). \<open>timeout_start\<close> and
  the clock are in milliseconds, so 90 seconds are 90000 and the sleep of half a second
  is 500.
\<close>

function long_poll ::
  "gw_env \<Rightarrow> request \<Rightarrow> string \<Rightarrow> nat \<Rightarrow> world \<Rightarrow> (exn + response) \<times> world" where
  "long_poll env req key timeout_start w =
     (if int (now w) - int timeout_start < 90000 then
        (case hget key ''status'' (sleep 500 w) of
           (Inl e, w2) \<Rightarrow> (Inl e, w2)
         | (Inr new_status, w2) \<Rightarrow>
             if new_status = Some ''ready'' then
               (case hget key ''ip'' w2 of
                  (Inl e, w3) \<Rightarrow> (Inl e, w3)
                | (Inr pod_ip, w3) \<Rightarrow>
                    (case store_write (\<lambda>w'. HSet key ''last_active'' (dec (unix_time w'))) w3 of
                       (Inl e, w4) \<Rightarrow> (Inl e, w4)
                     | (Inr u, w4) \<Rightarrow> proxy_request env pod_ip req w4))
             else if new_status = Some ''failed'' then
               (Inr (Response ''Pod creation failed. Please try again.'' 500), w2)
             else long_poll env req key timeout_start w2)
      else (Inr (Response ''Gateway timeout: Pod creation is taking too long.'' 504), w))"
  by pat_completeness auto
termination
  apply (relation "measure (\<lambda>(env, req, key, timeout_start, w). nat (int timeout_start + 90000 - int (now w)))")
   apply simp
  apply (auto simp: sleep_def emit_def dest!: now_hget [OF sym])
  done

declare long_poll.simps [simp del]

text \<open>
  \<open>gateway.py\<close>, \<open>handle_all_requests\<close> (lines 111-174). The handler calls itself after it
  has written \<open>initiating\<close> and published, and after it has deleted a \<open>failed\<close> record:
  \<open>again\<close> in the body below is that call, \<open>return await handle_all_requests(request,
  full_path)\<close>. The first argument of \<open>handle_all_requests\<close> bounds the number of entries,
  and \<open>None\<close> says that the bound was too small for the handler to return. A status that is
  none of the four falls through the \<open>try\<close> block, and the framework answers 200 with the
  body \<open>null\<close>.
\<close>

definition handler_body ::
  "(world \<Rightarrow> (response \<times> world) option) \<Rightarrow> gw_env \<Rightarrow> request \<Rightarrow> world \<Rightarrow>
   (response \<times> world) option" where
  "handler_body again env req w0 =
     (let w = emit Enter w0 in
      case x_user_id req of
        None \<Rightarrow> Some (Response ''X-User-ID header is required.'' 400, w)
      | Some user_id \<Rightarrow>
          if user_id = [] then Some (Response ''X-User-ID header is required.'' 400, w)
          else
            (let key = session_key user_id
             in case hgetall key w of
                  (Inl e, w1) \<Rightarrow> Some (respond_to e, w1)
                | (Inr session_data, w1) \<Rightarrow>
                    (let status = map_of session_data ''status'' in
                     if status = Some ''ready'' then
                       (case map_of session_data ''ip'' of
                          None \<Rightarrow>
                            Some (Response ''Session 'ready' but no IP. Please retry.'' 500, w1)
                        | Some pod_ip \<Rightarrow>
                            if pod_ip = [] then
                              Some (Response ''Session 'ready' but no IP. Please retry.'' 500, w1)
                            else
                              (case store_write
                                      (\<lambda>w'. HSet key ''last_active'' (dec (unix_time w'))) w1 of
                                 (Inl e, w2) \<Rightarrow> Some (respond_to e, w2)
                               | (Inr u, w2) \<Rightarrow>
                                   Some (handled (proxy_request env (Some pod_ip) req w2))))
                     else if status = Some ''initiating'' then
                       Some (handled (long_poll env req key (now w1) w1))
                     else if status = None then
                       (case store_write (\<lambda>_. HSet key ''status'' ''initiating'') w1 of
                          (Inl e, w2) \<Rightarrow> Some (respond_to e, w2)
                        | (Inr u, w2) \<Rightarrow>
                            (case publish_creation_request env user_id w2 of
                               (Some e, w3) \<Rightarrow>
                                 (case store_write (\<lambda>_. Del key) w3 of
                                    (Inl e', w4) \<Rightarrow> Some (respond_to e', w4)
                                  | (Inr u', w4) \<Rightarrow>
                                      Some (Response ''Failed to queue pod creation.'' 500, w4))
                             | (None, w3) \<Rightarrow> again w3))
                     else if status = Some ''failed'' then
                       (case store_write (\<lambda>_. Del key) w1 of
                          (Inl e, w2) \<Rightarrow> Some (respond_to e, w2)
                        | (Inr u, w2) \<Rightarrow> again w2)
                     else Some (Response ''null'' 200, w1))))"

primrec handle_all_requests ::
  "nat \<Rightarrow> gw_env \<Rightarrow> request \<Rightarrow> world \<Rightarrow> (response \<times> world) option" where
  "handle_all_requests 0 env req w = None"
| "handle_all_requests (Suc fuel) env req w =
     handler_body (handle_all_requests fuel env req) env req w"

section \<open>Example worlds\<close>

text \<open>A store with one session last used at second 1000 and one session that is still
  being created, at second 1700, with no other component active.\<close>

definition idle_world :: world where
  "idle_world =
     \<lparr>store =
        [(''session:bob'',
          [(''status'', ''ready''), (''ip'', ''10.0.0.7''), (''last_active'', ''1000'')]),
         (''session:amy'', [(''status'', ''initiating'')])],
      now = 1700000, script = [], trace = []\<rparr>"

text \<open>A message for the identity \<open>alice\<close>, a decoder that knows this body and the empty
  object, and a store in which the session of \<open>alice\<close> is being created.\<close>

definition alice_body :: string where "alice_body = ''{\"id\": \"alice\"}''"

definition decode_alice :: "string \<Rightarrow> json option" where
  "decode_alice body = (if body = alice_body then Some (JObject [(''id'', JString ''alice'')])
                        else if body = ''{}'' then Some (JObject []) else None)"

definition initiating_world :: world where
  "initiating_world = \<lparr>store = [(''session:alice'', [(''status'', ''initiating'')])],
      now = 1700000, script = [], trace = []\<rparr>"

text \<open>An orchestrator in which the sandbox of \<open>alice\<close> exists and runs, with an empty
  address.\<close>

definition running_no_ip :: wk_env where
  "running_no_ip = \<lparr>json_loads = decode_alice,
      read_namespaced_pod = (\<lambda>_. Inr \<lparr>status_phase = Some ''Running'', status_pod_ip = Some []\<rparr>),
      create_namespaced_pod = (\<lambda>_. None),
      watch_stream = (\<lambda>_. ([], None))\<rparr>"

text \<open>An orchestrator that does not find the sandbox when it is read, and refuses to create
  it because it exists already (409): another Worker created it in between.\<close>

definition already_exists :: wk_env where
  "already_exists = \<lparr>json_loads = decode_alice,
      read_namespaced_pod = (\<lambda>_. Inl (ApiException 404)),
      create_namespaced_pod = (\<lambda>_. Some (ApiException 409)),
      watch_stream = (\<lambda>_. ([\<lparr>status_phase = Some ''Running'', status_pod_ip = Some ''10.0.0.9''\<rparr>], None))\<rparr>"

text \<open>A request of \<open>alice\<close>, a healthy and a failing environment of the Gateway, a store
  without a record and a store in which the session of \<open>alice\<close> is ready, both with no
  other component active.\<close>

definition req_alice :: request where
  "req_alice = \<lparr>x_user_id = Some ''alice'', url_path = ''/x''\<rparr>"
definition up_ok :: gw_env where
  "up_ok = \<lparr>publish = (\<lambda>_. None), upstream = (\<lambda>_. Inr 200)\<rparr>"
definition up_down :: gw_env where
  "up_down = \<lparr>publish = (\<lambda>_. Some OtherError), upstream = (\<lambda>_. Inl RequestError)\<rparr>"
definition empty_world :: world where
  "empty_world = \<lparr>store = [], now = 1700000, script = [], trace = []\<rparr>"
definition ready_world :: world where
  "ready_world = \<lparr>store = [(''session:alice'', [(''status'', ''ready''), (''ip'', ''10.0.0.7''), (''last_active'', ''1000'')])],
      now = 1700000, script = [], trace = []\<rparr>"

text \<open>A store in which the session of \<open>alice\<close> is being created, and a Worker that marks
  it ready, at second 1701, between the Gateway's first read and its first poll; the
  poll's read returns at second 1702.\<close>

definition polling_world :: world where
  "polling_world =
     \<lparr>store = [(''session:alice'', [(''status'', ''initiating'')])], now = 1700000,
      script = [\<lparr>interfere = [], elapse = 0, raises = None\<rparr>,
                \<lparr>interfere = [HSetMapping ''session:alice''
                                [(''status'', ''ready''), (''ip'', ''10.0.0.7''),
                                 (''last_active'', ''1701'')]],
                  elapse = 1500, raises = None\<rparr>],
      trace = []\<rparr>"

text \<open>A store in which the session of \<open>alice\<close> has failed, with no other component
  active.\<close>

definition failed_world :: world where
  "failed_world = \<lparr>store = [(''session:alice'', [(''status'', ''failed'')])],
      now = 1700000, script = [], trace = []\<rparr>"

text \<open>A store without a record, and Worker attempts for \<open>alice\<close> whose verdicts arrive
  while her request is handled: one marks the session \<open>failed\<close> before the handler reads
  the record for the second time, one marks it \<open>ready\<close> before the handler reads it for the
  fourth time. A \<open>calm_step\<close> is a store call during which nothing else happens.\<close>

definition calm_step :: step where
  "calm_step = \<lparr>interfere = [], elapse = 0, raises = None\<rparr>"

definition churn_world :: world where
  "churn_world =
     \<lparr>store = [], now = 1700000,
      script = [calm_step, calm_step,
                \<lparr>interfere = [HSet ''session:alice'' ''status'' ''failed''], elapse = 0, raises = None\<rparr>,
                calm_step, calm_step, calm_step,
                \<lparr>interfere = [HSetMapping ''session:alice''
                    [(''status'', ''ready''), (''ip'', ''10.0.0.7''), (''last_active'', ''1700'')]],
                  elapse = 0, raises = None\<rparr>],
      trace = []\<rparr>"

section \<open>Properties of traces\<close>

text \<open>The events of an eviction by the Reaper: the sandbox delete with its result, and
  the record delete when that result was success or \<open>404\<close> and the store executed the
  delete.\<close>

definition evict_events :: "(string \<Rightarrow> exn option) \<Rightarrow> string \<Rightarrow> world \<Rightarrow> event list" where
  "evict_events kd key w1 =
     DeletePod (reaper_pod_name key) (kd (reaper_pod_name key)) #
     (if (kd (reaper_pod_name key) = None \<or> kd (reaper_pod_name key) = Some (ApiException 404))
         \<and> fst (store_call w1) = None
      then [Write (Del key)] else [])"

text \<open>Every record delete in a list of events comes right after the delete of that
  record's sandbox, which returned or raised \<open>404\<close>.\<close>

definition guarded :: "(string \<Rightarrow> exn option) \<Rightarrow> event list \<Rightarrow> bool" where
  "guarded kd evs =
     (\<forall>i key. i < length evs \<longrightarrow> evs ! i = Write (Del key) \<longrightarrow>
        0 < i \<and>
        evs ! (i - 1) = DeletePod (reaper_pod_name key) (kd (reaper_pod_name key)) \<and>
        (kd (reaper_pod_name key) = None \<or> kd (reaper_pod_name key) = Some (ApiException 404)))"

text \<open>The store is calm during a request when, at every store call the request makes, no
  other component has written and the call does not fail. \<open>after_call\<close> is the world after
  such a call: the time of the call has passed.\<close>

definition calm :: "world \<Rightarrow> bool" where
  "calm w = (\<forall>s\<in>set (script w). interfere s = [] \<and> raises s = None)"

definition after_call :: "world \<Rightarrow> world" where
  "after_call w =
     w\<lparr>now := now w + (case script w of [] \<Rightarrow> 0 | s # rest \<Rightarrow> elapse s), script := tl (script w)\<rparr>"

text \<open>How a long poll of the Gateway can end, given its result \<open>r\<close>, the world \<open>w'\<close> in
  which it ended and the events \<open>tail\<close> that follow its sleeps: the time is up; the record
  is \<open>failed\<close>; the record was touched and the request went to the sandbox; or a store call
  raised.\<close>

definition poll_outcome ::
  "gw_env \<Rightarrow> request \<Rightarrow> string \<Rightarrow> nat \<Rightarrow> (exn + response) \<Rightarrow> world \<Rightarrow> event list \<Rightarrow> bool" where
  "poll_outcome env req key timeout_start r w' tail =
     ((r = Inr (Response ''Gateway timeout: Pod creation is taking too long.'' 504) \<and> tail = [] \<and>
         90000 \<le> int (now w') - int timeout_start)
      \<or> (r = Inr (Response ''Pod creation failed. Please try again.'' 500) \<and> tail = [] \<and>
         map_of (hash_at (store w') key) ''status'' = Some ''failed'')
      \<or> (\<exists>t pod_ip w4. tail = [Write (HSet key ''last_active'' (dec t)),
                           Proxy (''http://'' @ py_str pod_ip @ '':80'' @ url_path req)] \<and>
                        r = fst (proxy_request env pod_ip req w4))
      \<or> (\<exists>e. r = Inl e \<and> tail = []))"

text \<open>The answer to a request that was sent to the sandbox at \<open>url\<close>: the upstream's answer
  is streamed back, a transport error is answered 503, and any other exception goes to
  the handler's \<open>except\<close> clauses.\<close>

definition proxied :: "gw_env \<Rightarrow> string \<Rightarrow> response \<Rightarrow> bool" where
  "proxied env url r =
     (case upstream env url of
        Inr code \<Rightarrow> r = StreamingResponse code
      | Inl e \<Rightarrow> r = (if e = RequestError then Response ''Session pod not reachable.'' 503
                      else respond_to e))"

text \<open>One round of the Gateway's long poll is a sleep of 500 ms followed by a read of the
  status; \<open>after_rounds key i w\<close> is the world \<open>i\<close> rounds after \<open>w\<close>.\<close>

definition status_read :: "string \<Rightarrow> world \<Rightarrow> (exn + string option) \<times> world" where
  "status_read key w = hget key ''status'' (sleep 500 w)"

primrec after_rounds :: "string \<Rightarrow> nat \<Rightarrow> world \<Rightarrow> world" where
  "after_rounds key 0 w = w"
| "after_rounds key (Suc i) w = after_rounds key i (snd (status_read key w))"

text \<open>How a long poll that started at \<open>timeout_start\<close> ends in the world \<open>w\<close>, with the answer
  and the world \<open>out\<close>. On elapse: 504, with no further read. Otherwise a last round: on
  \<open>failed\<close>, 500; on \<open>ready\<close>, the address is read, \<open>last_active\<close> is set to the time of the
  write, and the request goes to the sandbox at that address, these two being all that
  happens after the status was read; and when one of the store calls raises, the
  handler's answer to the exception. A round that reads anything else does not end the
  poll.\<close>

definition poll_ends ::
  "gw_env \<Rightarrow> request \<Rightarrow> string \<Rightarrow> nat \<Rightarrow> world \<Rightarrow> response \<times> world \<Rightarrow> bool" where
  "poll_ends env req key timeout_start w out =
     (if 90000 \<le> int (now w) - int timeout_start then
        out = (Response ''Gateway timeout: Pod creation is taking too long.'' 504, w)
      else
        (case status_read key w of
           (Inl e, w2) \<Rightarrow> out = (respond_to e, w2)
         | (Inr new_status, w2) \<Rightarrow>
             if new_status = Some ''failed'' then
               out = (Response ''Pod creation failed. Please try again.'' 500, w2)
             else
               new_status = Some ''ready'' \<and>
               (case hget key ''ip'' w2 of
                  (Inl e, w3) \<Rightarrow> out = (respond_to e, w3)
                | (Inr pod_ip, w3) \<Rightarrow>
                    (case store_call w3 of
                       (Some e, w4) \<Rightarrow> out = (respond_to e, w4)
                     | (None, w4) \<Rightarrow>
                         store (snd out) =
                           exec_cmd (HSet key ''last_active'' (dec (unix_time w4))) (store w4) \<and>
                         events_since w2 (snd out) =
                           [Write (HSet key ''last_active'' (dec (unix_time w4))),
                            Proxy (''http://'' @ py_str pod_ip @ '':80'' @ url_path req)] \<and>
                         proxied env (''http://'' @ py_str pod_ip @ '':80'' @ url_path req)
                           (fst out)))))"

text \<open>The entries of the Gateway handler among some events, and the state transitions of
  a session record among them: a write of its status, or its deletion.\<close>

definition entries :: "event list \<Rightarrow> nat" where
  "entries evs = length (filter (\<lambda>e. e = Enter) evs)"

fun is_transition :: "event \<Rightarrow> bool" where
  "is_transition (Write (HSet key field v)) = (field = ''status'')"
| "is_transition (Write (Del key)) = True"
| "is_transition e = False"

definition transitions :: "event list \<Rightarrow> nat" where
  "transitions evs = length (filter is_transition evs)"

text \<open>A request settles within \<open>n\<close> entries and \<open>k\<close> transitions when the handler, allowed to
  be entered \<open>n\<close> times or more, returns, having been entered at most \<open>n\<close> times and having
  made at most \<open>k\<close> transitions.\<close>

definition settles :: "nat \<Rightarrow> nat \<Rightarrow> gw_env \<Rightarrow> request \<Rightarrow> world \<Rightarrow> bool" where
  "settles n k env req w =
     (\<exists>r w' evs. (\<forall>fuel. handle_all_requests (n + fuel) env req w = Some (r, w')) \<and>
        trace w' = trace w @ evs \<and> entries evs \<le> n \<and> transitions evs \<le> k)"

section \<open>The Reaper: what a tick does\<close>

lemma trace_store_call: "trace (snd (store_call w)) = trace w"
  by (simp add: store_call_def split: list.splits)

lemma trace_hget: "hget key field w = (r, w1) \<Longrightarrow> trace w1 = trace w"
  using trace_store_call [of w]
  by (auto simp: hget_def split: prod.splits option.splits)

lemma trace_keys: "keys pfx w = (r, w1) \<Longrightarrow> trace w1 = trace w"
  using trace_store_call [of w]
  by (auto simp: keys_def split: prod.splits option.splits)

lemma trace_emit [simp]: "trace (emit e w) = trace w @ [e]"
  by (simp add: emit_def)

lemma fst_store_call_emit: "fst (store_call (emit e w)) = fst (store_call w)"
  by (simp add: store_call_def emit_def split: list.splits)

lemma trace_store_write:
  "trace (snd (store_write (\<lambda>_. c) w)) =
     trace w @ (if fst (store_call w) = None then [Write c] else [])"
  using trace_store_call [of w]
  by (auto simp: store_write_def emit_def split: prod.splits option.splits)

lemma py_int_empty: "py_int [] = None"
  by (simp add: py_int_def strip_space_def)

lemma trace_evict:
  "trace (case kd n of
            None \<Rightarrow> snd (store_write (\<lambda>_. Del key) (emit (DeletePod n (kd n)) w1))
          | Some (ApiException status) \<Rightarrow>
              if status = 404 then snd (store_write (\<lambda>_. Del key) (emit (DeletePod n (kd n)) w1))
              else emit (DeletePod n (kd n)) w1
          | Some e \<Rightarrow> emit (DeletePod n (kd n)) w1) =
   trace w1 @ DeletePod n (kd n) #
     (if (kd n = None \<or> kd n = Some (ApiException 404)) \<and> fst (store_call w1) = None
      then [Write (Del key)] else [])"
  by (cases "kd n") (auto simp: trace_store_write fst_store_call_emit split: exn.splits)

lemma reap_key_trace:
  assumes "hget key ''last_active'' w = (Inr last_active_str, w1)"
  shows "trace (reap_key kd ct key w) =
     trace w @
      (case last_active_str of None \<Rightarrow> []
       | Some s \<Rightarrow> (case py_int s of None \<Rightarrow> []
           | Some la \<Rightarrow> if ct - la > 600 then evict_events kd key w1 else []))"
  using assms trace_hget [OF assms] trace_evict [where kd = kd and n = "reaper_pod_name key" and key = key and ?w1.0 = w1]
  by (auto simp: reap_key_def Let_def IDLE_TIMEOUT_SECONDS_def evict_events_def py_int_empty
      split: option.splits)


lemma reap_key_trace_raise:
  assumes "hget key ''last_active'' w = (Inl e, w1)"
  shows "trace (reap_key kd ct key w) = trace w"
  using assms trace_hget [OF assms] by (simp add: reap_key_def)

lemma guarded_Nil: "guarded kd []"
  by (simp add: guarded_def)

lemma guarded_evict: "guarded kd (evict_events kd key w1)"
  by (auto simp: guarded_def evict_events_def nth_Cons split: nat.splits if_splits)

lemma guarded_append:
  assumes "guarded kd xs" and "guarded kd ys"
  shows "guarded kd (xs @ ys)"
  unfolding guarded_def
proof (intro allI impI)
  fix i key
  assume i: "i < length (xs @ ys)" and at: "(xs @ ys) ! i = Write (Del key)"
  let ?goal = "0 < i \<and>
        (xs @ ys) ! (i - 1) = DeletePod (reaper_pod_name key) (kd (reaper_pod_name key)) \<and>
        (kd (reaper_pod_name key) = None \<or> kd (reaper_pod_name key) = Some (ApiException 404))"
  show ?goal
  proof (cases "i < length xs")
    case True
    with at have "xs ! i = Write (Del key)" by (simp add: nth_append)
    with assms(1) True have
      "0 < i \<and> xs ! (i - 1) = DeletePod (reaper_pod_name key) (kd (reaper_pod_name key)) \<and>
       (kd (reaper_pod_name key) = None \<or> kd (reaper_pod_name key) = Some (ApiException 404))"
      unfolding guarded_def by blast
    moreover from True have "i - 1 < length xs" by simp
    ultimately show ?thesis by (simp add: nth_append)
  next
    case False
    define j where "j = i - length xs"
    from False i have j: "j < length ys" by (simp add: j_def)
    from False at have "ys ! j = Write (Del key)" by (simp add: nth_append j_def)
    with assms(2) j have *:
      "0 < j \<and> ys ! (j - 1) = DeletePod (reaper_pod_name key) (kd (reaper_pod_name key)) \<and>
       (kd (reaper_pod_name key) = None \<or> kd (reaper_pod_name key) = Some (ApiException 404))"
      unfolding guarded_def by blast
    then have "\<not> i - 1 < length xs" and "i - 1 - length xs = j - 1" and "0 < i"
      by (auto simp: j_def)
    with * show ?thesis by (simp add: nth_append)
  qed
qed

lemma reap_key_guarded:
  "\<exists>evs. trace (reap_key kd ct key w) = trace w @ evs \<and> guarded kd evs"
proof (cases "hget key ''last_active'' w")
  case (Pair r w1)
  show ?thesis
  proof (cases r)
    case (Inl e)
    with Pair show ?thesis by (simp add: reap_key_trace_raise guarded_Nil)
  next
    case (Inr las)
    with Pair have "hget key ''last_active'' w = (Inr las, w1)" by simp
    from reap_key_trace [OF this, of kd ct] show ?thesis
      by (auto simp: guarded_Nil guarded_evict split: option.splits)
  qed
qed

lemma fold_reap_key_guarded:
  "\<exists>evs. trace (fold (reap_key kd ct) ks w) = trace w @ evs \<and> guarded kd evs"
proof (induction ks arbitrary: w)
  case Nil
  show ?case by (simp add: guarded_Nil)
next
  case (Cons k ks)
  obtain xs where xs: "trace (reap_key kd ct k w) = trace w @ xs" "guarded kd xs"
    using reap_key_guarded by blast
  obtain ys where ys: "trace (fold (reap_key kd ct) ks (reap_key kd ct k w)) =
      trace (reap_key kd ct k w) @ ys" "guarded kd ys"
    using Cons.IH by blast
  from xs ys show ?case by (auto intro: guarded_append)
qed

lemma reaper_tick_guarded:
  "\<exists>evs. trace (reaper_tick kd w) = trace w @ evs \<and> guarded kd evs"
proof (cases "keys ''session:'' w")
  case (Pair r w1)
  then have tr: "trace w1 = trace w" by (rule trace_keys)
  show ?thesis
  proof (cases r)
    case (Inl e)
    with Pair tr show ?thesis by (simp add: reaper_tick_def guarded_Nil)
  next
    case (Inr ks)
    with Pair tr fold_reap_key_guarded [of kd "int (unix_time w1)" ks w1]
    show ?thesis by (simp add: reaper_tick_def)
  qed
qed

lemma reaper_tick_events:
  "trace (reaper_tick kd w) = trace w @ events_since w (reaper_tick kd w)"
  using reaper_tick_guarded [of kd w] by (auto simp: events_since_def)

lemma py_int_1000: "py_int ''1000'' = Some 1000"
  by (simp add: py_int_def strip_space_def is_space_def parse_nat_def is_digit_def digit_val_def)

lemma reaper_pod_name_bob: "reaper_pod_name ''session:bob'' = ''session-bob''"
  by (simp add: reaper_pod_name_def split_last_def lower_def lower_char_def re_sub_dash_def
      is_az09_def strip_dash_def)

lemma tick_idle_world: "events_since idle_world (reaper_tick (\<lambda>_. None) idle_world) = [DeletePod ''session-bob'' None, Write (Del ''session:bob'')]"
  by (simp add: events_since_def reaper_tick_def keys_def store_call_def idle_world_def reap_key_def hget_def
     hash_at_def py_int_1000 unix_time_def IDLE_TIMEOUT_SECONDS_def reaper_pod_name_bob Let_def
     store_write_def emit_def)


text \<open>
  C7. In the events of one Reaper tick, a record delete is always the event right after
  the delete call for the sandbox name the Reaper computes from that record's key, and
  that call returned (\<open>None\<close>) or raised \<open>404\<close>. So when the sandbox delete for a key fails in
  any other way, the tick has no delete of that record.
\<close>

theorem reaper_record_delete_follows_sandbox_delete:
  assumes "i < length (events_since w (reaper_tick kd w))"
      and "events_since w (reaper_tick kd w) ! i = Write (Del key)"
  shows "0 < i \<and>
         events_since w (reaper_tick kd w) ! (i - 1) =
           DeletePod (reaper_pod_name key) (kd (reaper_pod_name key)) \<and>
         (kd (reaper_pod_name key) = None \<or> kd (reaper_pod_name key) = Some (ApiException 404))"
proof -
  obtain evs where evs: "trace (reaper_tick kd w) = trace w @ evs" "guarded kd evs"
    using reaper_tick_guarded by blast
  then have "events_since w (reaper_tick kd w) = evs" by (simp add: events_since_def)
  with evs(2) assms show ?thesis unfolding guarded_def by blast
qed


theorem reaper_record_delete_follows_sandbox_delete_witness:
  "1 < length (events_since idle_world (reaper_tick (\<lambda>_. None) idle_world)) \<and>
   events_since idle_world (reaper_tick (\<lambda>_. None) idle_world) ! 1 = Write (Del ''session:bob'') \<and>
   events_since idle_world (reaper_tick (\<lambda>_. None) idle_world) ! (1 - 1) =
     DeletePod (reaper_pod_name ''session:bob'') None"
  using reaper_record_delete_follows_sandbox_delete
    [of 1 idle_world "\<lambda>_. None" "''session:bob''"]
  by (simp add: tick_idle_world)

lemma reaper_tick_visits:
  "keys ''session:'' w = (Inr session_keys, w1) \<Longrightarrow>
   reaper_tick kd w = fold (reap_key kd (int (unix_time w1))) session_keys w1"
  by (simp add: reaper_tick_def)





section \<open>The Worker: what a message does\<close>

lemma dec_1700: "dec 1700 = ''1700''"
  by (simp add: dec.simps char_of_def bit_iff_odd)

lemma dec_1702: "dec 1702 = ''1702''"
  by (simp add: dec.simps char_of_def bit_iff_odd)

lemma worker_pod_name_alice: "worker_pod_name ''alice'' = ''session-alice''"
  by (simp add: worker_pod_name_def sanitize_k8s_name_def lower_def lower_char_def re_sub_dash_def
      is_az09_def strip_dash_def)

text \<open>
  C10. When the body of a delivered message does not decode to an object whose \<open>id\<close> is a
  non-empty text (the body is no JSON, the value is no object, \<open>id\<close> is missing, empty or
  no text), the callback acknowledges the message and does nothing else: the world
  afterwards is the world before with the one event \<open>Ack\<close> added, so there is no write to
  the store and no call to the orchestrator.
\<close>

theorem malformed_message_only_acked:
  assumes "\<And>items uid. json_loads env body = Some (JObject items) \<Longrightarrow>
             map_of items ''id'' = Some (JString uid) \<Longrightarrow> uid = []"
  shows "on_message_callback env body w = emit Ack w"
proof (cases "json_loads env body")
  case None
  then show ?thesis by (simp add: on_message_callback_def)
next
  case (Some data)
  show ?thesis
  proof (cases data)
    case (JObject items)
    show ?thesis
    proof (cases "map_of items ''id''")
      case None
      with Some JObject show ?thesis by (simp add: on_message_callback_def)
    next
      case (Some v)
      with assms \<open>json_loads env body = Some data\<close> JObject show ?thesis
        by (cases v) (auto simp: on_message_callback_def)
    qed
  qed (use Some in \<open>simp_all add: on_message_callback_def\<close>)
qed

theorem malformed_message_only_acked_witness:
  "on_message_callback already_exists ''{}'' initiating_world = emit Ack initiating_world \<and>
   on_message_callback already_exists ''not json'' initiating_world = emit Ack initiating_world"
  using malformed_message_only_acked [of already_exists "''{}''" initiating_world]
    malformed_message_only_acked [of already_exists "''not json''" initiating_world]
  by (simp add: already_exists_def decode_alice_def alice_body_def)

text \<open>
  C5, as the code has it. When the read of the sandbox gives \<open>404\<close> and the create raises
  (for \<open>409\<close>, already exists, as for any other exception), the attempt ends there: the
  Worker does not wait for the sandbox, writes nothing to the store (the record stays as
  it was, \<open>initiating\<close>), and acknowledges the message.
\<close>

theorem create_failure_aborts_attempt:
  assumes "json_loads env body = Some (JObject items)"
      and "map_of items ''id'' = Some (JString uid)" and "uid \<noteq> []"
      and "read_namespaced_pod env (worker_pod_name uid) = Inl (ApiException 404)"
      and "create_namespaced_pod env (worker_pod_name uid) = Some e"
  shows "on_message_callback env body w =
           w\<lparr>trace := trace w @ [ReadPod (worker_pod_name uid), CreatePod (worker_pod_name uid), Ack]\<rparr>"
  using assms by (simp add: on_message_callback_def reconcile_def emit_def Let_def)

theorem create_failure_aborts_attempt_witness:
  "on_message_callback already_exists alice_body initiating_world =
     initiating_world\<lparr>trace := [ReadPod ''session-alice'', CreatePod ''session-alice'', Ack]\<rparr>"
  using create_failure_aborts_attempt
    [of already_exists alice_body "[(''id'', JString ''alice'')]" "''alice''" "ApiException 409"
        initiating_world]
  by (simp add: already_exists_def decode_alice_def worker_pod_name_alice initiating_world_def)

text \<open>
  C5, as the claim states it, fails: with a create that raises \<open>409\<close> there is no watch for
  the sandbox, and the record is still \<open>initiating\<close> afterwards, neither \<open>ready\<close> nor \<open>failed\<close>.
\<close>

theorem already_exists_not_treated_as_success:
  "create_namespaced_pod already_exists (worker_pod_name ''alice'') = Some (ApiException 409) \<and>
   WatchPod (worker_pod_name ''alice'') \<notin>
     set (trace (on_message_callback already_exists alice_body initiating_world)) \<and>
   map_of (hash_at (store (on_message_callback already_exists alice_body initiating_world))
      ''session:alice'') ''status'' = Some ''initiating''"
  by (simp add: already_exists_def decode_alice_def on_message_callback_def reconcile_def
      worker_pod_name_alice emit_def initiating_world_def hash_at_def Let_def)

text \<open>
  C2. The write of \<open>ready\<close> for a sandbox that exists already and runs does not look at
  the address: when the orchestrator reports the phase \<open>Running\<close> with an empty address,
  the record is \<open>ready\<close> with an empty \<open>ip\<close> afterwards. (The path through the watch tests
  the address before it writes.)
\<close>

theorem running_pod_without_address_marked_ready:
  "map_of (hash_at (store (on_message_callback running_no_ip alice_body initiating_world))
      ''session:alice'') ''status'' = Some ''ready'' \<and>
   map_of (hash_at (store (on_message_callback running_no_ip alice_body initiating_world))
      ''session:alice'') ''ip'' = Some []"
  by (simp add: running_no_ip_def decode_alice_def on_message_callback_def reconcile_def
      worker_pod_name_alice emit_def initiating_world_def hash_at_def put_ready_def
      store_write_def store_call_def session_key_def Let_def)


section \<open>The Gateway: one request\<close>

lemma store_call_calm: "calm w \<Longrightarrow> store_call w = (None, after_call w)"
  by (cases "script w") (auto simp: store_call_def calm_def after_call_def)

lemma after_call_simps [simp]:
  "store (after_call w) = store w" "trace (after_call w) = trace w"
  "now w \<le> now (after_call w)"
  by (simp_all add: after_call_def)

lemma calm_after_call [simp]: "calm w \<Longrightarrow> calm (after_call w)"
  by (cases "script w") (auto simp: calm_def after_call_def)

lemma calm_emit [simp]: "calm (emit e w) = calm w"
  by (simp add: calm_def emit_def)

lemma calm_store_update [simp]: "calm (w\<lparr>store := r\<rparr>) = calm w"
  by (simp add: calm_def)

lemma emit_simps [simp]:
  "store (emit e w) = store w" "trace (emit e w) = trace w @ [e]" "now (emit e w) = now w"
  by (simp_all add: emit_def)

lemma hgetall_calm:
  "calm w \<Longrightarrow> hgetall key w = (Inr (hash_at (store w) key), after_call w)"
  by (simp add: hgetall_def store_call_calm)

lemma store_write_calm:
  "calm w \<Longrightarrow>
   store_write mk w =
     (Inr (), emit (Write (mk (after_call w)))
                ((after_call w)\<lparr>store := exec_cmd (mk (after_call w)) (store w)\<rparr>))"
  by (simp add: store_write_def store_call_calm)

lemma delete_absent: "map_of al k = None \<Longrightarrow> AList.delete k al = al"
  by (induction al) (auto simp: split: if_splits)

lemma delete_update_absent:
  "map_of al k = None \<Longrightarrow> AList.delete k (AList.update k v al) = al"
  by (simp add: AList.delete_update_same delete_absent)

lemma hash_at_absent: "map_of r key = None \<Longrightarrow> hash_at r key = []"
  by (simp add: hash_at_def)

lemma hash_at_update_same: "hash_at (AList.update key h r) key = h"
  by (simp add: hash_at_def AList.update_conv')

lemma update_absent_append: "map_of al k = None \<Longrightarrow> AList.update k v al = al @ [(k, v)]"
  by (induction al) (auto split: if_splits)

text \<open>What one entry of the handler does when the record has no status and the store is
  calm: the write of \<open>initiating\<close>, the publish, and then either the next entry or the
  rollback.\<close>

lemma absent_entry_calm:
  assumes "x_user_id req = Some uid" and "uid \<noteq> []" and "calm w"
      and "map_of (hash_at (store w) (session_key uid)) ''status'' = None"
  shows "handler_body again env req w =
     (let w2 = emit (Write (HSet (session_key uid) ''status'' ''initiating''))
                 ((after_call (after_call (emit Enter w)))
                    \<lparr>store := exec_cmd (HSet (session_key uid) ''status'' ''initiating'') (store w)\<rparr>);
          w3 = emit (Publish uid (publish env uid)) w2
      in case publish env uid of
           None \<Rightarrow> again w3
         | Some e \<Rightarrow>
             Some (Response ''Failed to queue pod creation.'' 500,
                   emit (Write (Del (session_key uid)))
                     ((after_call w3)\<lparr>store := exec_cmd (Del (session_key uid)) (store w3)\<rparr>)))"
  using assms
  by (simp add: handler_body_def hgetall_calm store_write_calm publish_creation_request_def
      Let_def split: option.splits)

text \<open>
  C8. A request for an identity that has no record, with the store calm. The handler
  writes \<open>initiating\<close> and publishes the message for the identity: whatever the handler
  does next, it does in the world \<open>w3\<close> in which that write and that publish have happened,
  and in which the store holds the record \<open>initiating\<close> and is otherwise as before. When
  the publish went through, the handler is entered again in \<open>w3\<close>. When the publish raised,
  the handler deletes the record, so that the store is what it was before the request,
  and answers 500.
\<close>

theorem publish_failure_rolls_back:
  assumes "x_user_id req = Some uid" and "uid \<noteq> []" and "calm w"
      and "map_of (store w) (session_key uid) = None"
  shows "(publish env uid = None \<longrightarrow>
            (\<exists>w3. (\<forall>again. handler_body again env req w = again w3) \<and>
                  handle_all_requests (Suc fuel) env req w = handle_all_requests fuel env req w3 \<and>
                  events_since w w3 =
                    [Enter, Write (HSet (session_key uid) ''status'' ''initiating''),
                     Publish uid None] \<and>
                  store w3 = store w @ [(session_key uid, [(''status'', ''initiating'')])] \<and>
                  map_of (hash_at (store w3) (session_key uid)) ''status'' = Some ''initiating'')) \<and>
         (\<forall>e. publish env uid = Some e \<longrightarrow>
            (\<exists>w4. (\<forall>again. handler_body again env req w =
                     Some (Response ''Failed to queue pod creation.'' 500, w4)) \<and>
                  handle_all_requests (Suc fuel) env req w =
                    Some (Response ''Failed to queue pod creation.'' 500, w4) \<and>
                  events_since w w4 =
                    [Enter, Write (HSet (session_key uid) ''status'' ''initiating''),
                     Publish uid (Some e), Write (Del (session_key uid))] \<and>
                  store w4 = store w))"
proof -
  let ?key = "session_key uid"
  have absent: "hash_at (store w) ?key = []" using assms(4) by (rule hash_at_absent)
  then have status: "map_of (hash_at (store w) ?key) ''status'' = None" by simp
  note entry = absent_entry_calm [OF assms(1-3) status]
  have upd: "AList.update ?key h (store w) = store w @ [(?key, h)]" for h
    using assms(4) by (rule update_absent_append)
  let ?w2 = "emit (Write (HSet ?key ''status'' ''initiating''))
               ((after_call (after_call (emit Enter w)))
                  \<lparr>store := exec_cmd (HSet ?key ''status'' ''initiating'') (store w)\<rparr>)"
  show ?thesis
  proof (intro conjI impI allI)
    assume ok: "publish env uid = None"
    let ?w3 = "emit (Publish uid None) ?w2"
    have body: "handler_body again env req w = again ?w3" for again
      using entry [of again env] ok by (simp add: Let_def)
    have "store ?w3 = store w @ [(?key, [(''status'', ''initiating'')])]"
      using absent upd by simp
    moreover have "events_since w ?w3 =
        [Enter, Write (HSet ?key ''status'' ''initiating''), Publish uid None]"
      by (simp add: events_since_def)
    moreover have "map_of (hash_at (store ?w3) ?key) ''status'' = Some ''initiating''"
      by (simp add: hash_at_update_same AList.update_conv')
    moreover have "handle_all_requests (Suc fuel) env req w = handle_all_requests fuel env req ?w3"
      using body by simp
    ultimately show "\<exists>w3. (\<forall>again. handler_body again env req w = again w3) \<and>
                  handle_all_requests (Suc fuel) env req w = handle_all_requests fuel env req w3 \<and>
                  events_since w w3 =
                    [Enter, Write (HSet ?key ''status'' ''initiating''), Publish uid None] \<and>
                  store w3 = store w @ [(?key, [(''status'', ''initiating'')])] \<and>
                  map_of (hash_at (store w3) ?key) ''status'' = Some ''initiating''"
      using body by blast
  next
    fix e assume bad: "publish env uid = Some e"
    let ?w3 = "emit (Publish uid (Some e)) ?w2"
    let ?w4 = "emit (Write (Del ?key)) ((after_call ?w3)\<lparr>store := exec_cmd (Del ?key) (store ?w3)\<rparr>)"
    have body: "handler_body again env req w =
        Some (Response ''Failed to queue pod creation.'' 500, ?w4)" for again
      using entry [of again env] bad by (simp add: Let_def)
    have "store ?w4 = store w"
      using assms(4) by (simp add: delete_update_absent)
    moreover have "events_since w ?w4 =
        [Enter, Write (HSet ?key ''status'' ''initiating''), Publish uid (Some e), Write (Del ?key)]"
      by (simp add: events_since_def)
    moreover have "handle_all_requests (Suc fuel) env req w =
        Some (Response ''Failed to queue pod creation.'' 500, ?w4)"
      using body by simp
    ultimately show "\<exists>w4. (\<forall>again. handler_body again env req w =
                     Some (Response ''Failed to queue pod creation.'' 500, w4)) \<and>
                  handle_all_requests (Suc fuel) env req w =
                    Some (Response ''Failed to queue pod creation.'' 500, w4) \<and>
                  events_since w w4 =
                    [Enter, Write (HSet ?key ''status'' ''initiating''),
                     Publish uid (Some e), Write (Del ?key)] \<and>
                  store w4 = store w"
      using body by blast
  qed
qed

lemma calm_empty_world: "calm empty_world"
  by (simp add: calm_def empty_world_def)

lemma calm_ready_world: "calm ready_world"
  by (simp add: calm_def ready_world_def)

lemma session_key_alice: "session_key ''alice'' = ''session:alice''"
  by (simp add: session_key_def)

theorem publish_failure_rolls_back_witness:
  "(\<exists>w3. (\<forall>again. handler_body again up_ok req_alice empty_world = again w3) \<and>
         events_since empty_world w3 =
           [Enter, Write (HSet ''session:alice'' ''status'' ''initiating''),
            Publish ''alice'' None] \<and>
         store w3 = [(''session:alice'', [(''status'', ''initiating'')])]) \<and>
   (\<exists>w4. handle_all_requests (Suc 0) up_down req_alice empty_world =
           Some (Response ''Failed to queue pod creation.'' 500, w4) \<and>
         events_since empty_world w4 =
           [Enter, Write (HSet ''session:alice'' ''status'' ''initiating''),
            Publish ''alice'' (Some OtherError), Write (Del ''session:alice'')] \<and>
         store w4 = [])"
proof -
  have pre: "x_user_id req_alice = Some ''alice''" "''alice'' \<noteq> []" "calm empty_world"
    "map_of (store empty_world) (session_key ''alice'') = None"
    by (simp_all add: req_alice_def calm_empty_world) (simp add: empty_world_def)
  have ok: "publish up_ok ''alice'' = None" and bad: "publish up_down ''alice'' = Some OtherError"
    by (simp_all add: up_ok_def up_down_def)
  have st: "store empty_world = []" by (simp add: empty_world_def)
  from publish_failure_rolls_back [OF pre, of up_ok 0] ok
  have "\<exists>w3. (\<forall>again. handler_body again up_ok req_alice empty_world = again w3) \<and>
         events_since empty_world w3 =
           [Enter, Write (HSet ''session:alice'' ''status'' ''initiating''),
            Publish ''alice'' None] \<and>
         store w3 = [(''session:alice'', [(''status'', ''initiating'')])]"
    unfolding session_key_alice st by auto
  moreover from publish_failure_rolls_back [OF pre, of up_down 0] bad
  have "\<exists>w4. handle_all_requests (Suc 0) up_down req_alice empty_world =
           Some (Response ''Failed to queue pod creation.'' 500, w4) \<and>
         events_since empty_world w4 =
           [Enter, Write (HSet ''session:alice'' ''status'' ''initiating''),
            Publish ''alice'' (Some OtherError), Write (Del ''session:alice'')] \<and>
         store w4 = []"
    unfolding session_key_alice st by auto
  ultimately show ?thesis by blast
qed

lemma unix_time_mono: "now w \<le> now w' \<Longrightarrow> unix_time w \<le> unix_time w'"
  by (simp add: unix_time_def div_le_mono)

lemma ready_entry_calm:
  assumes "x_user_id req = Some uid" and "uid \<noteq> []" and "calm w"
      and "map_of (hash_at (store w) (session_key uid)) ''status'' = Some ''ready''"
      and "map_of (hash_at (store w) (session_key uid)) ''ip'' = Some pod_ip" and "pod_ip \<noteq> []"
  shows "handler_body again env req w =
     Some (handled (proxy_request env (Some pod_ip) req
       (emit (Write (HSet (session_key uid) ''last_active''
                (dec (unix_time (after_call (after_call (emit Enter w)))))))
          ((after_call (after_call (emit Enter w)))
             \<lparr>store := exec_cmd (HSet (session_key uid) ''last_active''
                (dec (unix_time (after_call (after_call (emit Enter w)))))) (store w)\<rparr>))))"
  using assms
  by (simp add: handler_body_def hgetall_calm store_write_calm Let_def)


text \<open>
  C1, as the code has it. A request whose record is \<open>ready\<close> with a non-empty address, with
  the store calm, whose upstream call fails with a transport error: the answer is 503;
  \<open>status\<close> and \<open>ip\<close> of the record are what they were; \<open>last_active\<close> holds the time at which
  the handler touched the record, which is not before the request started, because the
  touch comes before the upstream call.
\<close>

theorem upstream_failure_touches_record:
  assumes "x_user_id req = Some uid" and "uid \<noteq> []" and "calm w"
      and "map_of (hash_at (store w) (session_key uid)) ''status'' = Some ''ready''"
      and "map_of (hash_at (store w) (session_key uid)) ''ip'' = Some pod_ip" and "pod_ip \<noteq> []"
      and "upstream env (''http://'' @ pod_ip @ '':80'' @ url_path req) = Inl RequestError"
  shows "\<exists>w' t. handle_all_requests (Suc fuel) env req w =
                  Some (Response ''Session pod not reachable.'' 503, w') \<and>
               unix_time w \<le> t \<and>
               events_since w w' =
                 [Enter, Write (HSet (session_key uid) ''last_active'' (dec t)),
                  Proxy (''http://'' @ pod_ip @ '':80'' @ url_path req)] \<and>
               map_of (hash_at (store w') (session_key uid)) ''status'' = Some ''ready'' \<and>
               map_of (hash_at (store w') (session_key uid)) ''ip'' = Some pod_ip \<and>
               map_of (hash_at (store w') (session_key uid)) ''last_active'' = Some (dec t)"
proof -
  let ?key = "session_key uid"
  let ?w2 = "after_call (after_call (emit Enter w))"
  let ?t = "unix_time ?w2"
  let ?url = "''http://'' @ pod_ip @ '':80'' @ url_path req"
  let ?w4 = "emit (Write (HSet ?key ''last_active'' (dec ?t)))
               (?w2\<lparr>store := exec_cmd (HSet ?key ''last_active'' (dec ?t)) (store w)\<rparr>)"
  let ?w' = "emit (Proxy ?url) ?w4"
  have "now w \<le> now (after_call (emit Enter w))"
    using after_call_simps(3) [of "emit Enter w"] by simp
  also have "\<dots> \<le> now ?w2" by (rule after_call_simps(3))
  finally have t: "unix_time w \<le> ?t" by (rule unix_time_mono)
  have run: "handle_all_requests (Suc fuel) env req w =
               Some (Response ''Session pod not reachable.'' 503, ?w')"
    using assms(7)
    by (simp add: ready_entry_calm [OF assms(1-6)] proxy_request_def py_str_def handled_def
        Let_def)
  have ev: "events_since w ?w' = [Enter, Write (HSet ?key ''last_active'' (dec ?t)), Proxy ?url]"
    by (simp add: events_since_def)
  have st: "store ?w' = AList.update ?key (AList.update ''last_active'' (dec ?t)
              (hash_at (store w) ?key)) (store w)"
    by simp
  have fields:
    "map_of (hash_at (store ?w') ?key) ''status'' = Some ''ready''"
    "map_of (hash_at (store ?w') ?key) ''ip'' = Some pod_ip"
    "map_of (hash_at (store ?w') ?key) ''last_active'' = Some (dec ?t)"
    using assms(4,5) unfolding st hash_at_update_same by (simp_all add: AList.update_conv')
  from run t ev fields show ?thesis by blast
qed

lemma ready_world_fields:
  "map_of (hash_at (store ready_world) ''session:alice'') ''status'' = Some ''ready''"
  "map_of (hash_at (store ready_world) ''session:alice'') ''ip'' = Some ''10.0.0.7''"
  "map_of (hash_at (store ready_world) ''session:alice'') ''last_active'' = Some ''1000''"
  by (simp_all add: ready_world_def hash_at_def)

theorem upstream_failure_touches_record_witness:
  "\<exists>w' t. handle_all_requests (Suc 0) up_down req_alice ready_world =
             Some (Response ''Session pod not reachable.'' 503, w') \<and>
          unix_time ready_world \<le> t \<and>
          map_of (hash_at (store w') ''session:alice'') ''status'' = Some ''ready'' \<and>
          map_of (hash_at (store w') ''session:alice'') ''ip'' = Some ''10.0.0.7'' \<and>
          map_of (hash_at (store w') ''session:alice'') ''last_active'' = Some (dec t)"
proof -
  have "\<exists>w' t. handle_all_requests (Suc 0) up_down req_alice ready_world =
                  Some (Response ''Session pod not reachable.'' 503, w') \<and>
               unix_time ready_world \<le> t \<and>
               events_since ready_world w' =
                 [Enter, Write (HSet (session_key ''alice'') ''last_active'' (dec t)),
                  Proxy (''http://'' @ ''10.0.0.7'' @ '':80'' @ url_path req_alice)] \<and>
               map_of (hash_at (store w') (session_key ''alice'')) ''status'' = Some ''ready'' \<and>
               map_of (hash_at (store w') (session_key ''alice'')) ''ip'' = Some ''10.0.0.7'' \<and>
               map_of (hash_at (store w') (session_key ''alice'')) ''last_active'' = Some (dec t)"
    by (rule upstream_failure_touches_record)
       (simp_all add: req_alice_def calm_ready_world session_key_alice ready_world_fields
          up_down_def)
  then show ?thesis unfolding session_key_alice by blast
qed

lemma after_call_ready_world: "after_call ready_world = ready_world"
  by (simp add: after_call_def ready_world_def)


lemma hgetall_ready_world:
  "hgetall ''session:alice'' (emit Enter ready_world) =
     (Inr [(''status'', ''ready''), (''ip'', ''10.0.0.7''), (''last_active'', ''1000'')],
      emit Enter ready_world)"
  by (simp add: hgetall_def store_call_def emit_def ready_world_def hash_at_def)

lemma touch_ready_world:
  "store_write (\<lambda>w'. HSet ''session:alice'' ''last_active'' (dec (unix_time w')))
     (emit Enter ready_world) =
   (Inr (), ready_world
      \<lparr>store := [(''session:alice'',
          [(''status'', ''ready''), (''ip'', ''10.0.0.7''), (''last_active'', ''1700'')])],
        trace := [Enter, Write (HSet ''session:alice'' ''last_active'' ''1700'')]\<rparr>)"
  by (simp add: store_write_def store_call_def emit_def ready_world_def hash_at_def unix_time_def
      dec_1700)

text \<open>
  C1, as the claim states it, fails: \<open>last_active\<close> is \<open>1000\<close> when the request starts at
  second 1700, the upstream refuses the connection, and the record holds \<open>1700\<close> when the
  handler has answered 503.
\<close>

theorem upstream_failure_changes_last_active:
  "map_of (hash_at (store ready_world) ''session:alice'') ''last_active'' = Some ''1000'' \<and>
   handle_all_requests (Suc 0) up_down req_alice ready_world =
     Some (Response ''Session pod not reachable.'' 503,
           ready_world
             \<lparr>store := [(''session:alice'',
                 [(''status'', ''ready''), (''ip'', ''10.0.0.7''), (''last_active'', ''1700'')])],
               trace := [Enter, Write (HSet ''session:alice'' ''last_active'' ''1700''),
                         Proxy ''http://10.0.0.7:80/x'']\<rparr>)"
proof -
  let ?touched = "ready_world
      \<lparr>store := [(''session:alice'',
          [(''status'', ''ready''), (''ip'', ''10.0.0.7''), (''last_active'', ''1700'')])],
        trace := [Enter, Write (HSet ''session:alice'' ''last_active'' ''1700'')]\<rparr>"
  have "handler_body again up_down req_alice ready_world =
          Some (handled (proxy_request up_down (Some ''10.0.0.7'') req_alice ?touched))" for again
    by (simp add: handler_body_def req_alice_def session_key_alice hgetall_ready_world
        touch_ready_world Let_def)
  moreover have "handled (proxy_request up_down (Some ''10.0.0.7'') req_alice ?touched) =
      (Response ''Session pod not reachable.'' 503,
       ready_world
         \<lparr>store := [(''session:alice'',
             [(''status'', ''ready''), (''ip'', ''10.0.0.7''), (''last_active'', ''1700'')])],
           trace := [Enter, Write (HSet ''session:alice'' ''last_active'' ''1700''),
                     Proxy ''http://10.0.0.7:80/x'']\<rparr>)"
    by (simp add: proxy_request_def py_str_def handled_def up_down_def req_alice_def emit_def
        Let_def)
  ultimately show ?thesis by (simp add: ready_world_fields)
qed

section \<open>The Gateway: the long poll\<close>

lemma hget_value:
  "hget key field w = (Inr v, w') \<Longrightarrow> v = map_of (hash_at (store w') key) field"
  by (auto simp: hget_def split: prod.splits option.splits)

lemma store_write_raises_trace: "store_write mk w = (Inl e, w') \<Longrightarrow> trace w' = trace w"
  using trace_store_call [of w]
  by (auto simp: store_write_def split: prod.splits option.splits)

lemma touch_trace:
  "store_write (\<lambda>w'. HSet key ''last_active'' (dec (unix_time w'))) w = (Inr u, w4) \<Longrightarrow>
   \<exists>t. trace w4 = trace w @ [Write (HSet key ''last_active'' (dec t))]"
  using trace_store_call [of w]
  by (auto simp: store_write_def split: prod.splits option.splits)

lemma proxy_request_trace:
  "trace (snd (proxy_request env pod_ip req w)) =
     trace w @ [Proxy (''http://'' @ py_str pod_ip @ '':80'' @ url_path req)]"
  by (simp add: proxy_request_def Let_def split: sum.splits exn.splits)

text \<open>One round of the loop: the time is up; or, after the sleep, the status read is
  \<open>failed\<close>, is \<open>ready\<close>, or is anything else.\<close>

lemma long_poll_step:
  "\<not> int (now w) - int timeout_start < 90000 \<Longrightarrow>
     long_poll env req key timeout_start w =
       (Inr (Response ''Gateway timeout: Pod creation is taking too long.'' 504), w)"
  "int (now w) - int timeout_start < 90000 \<Longrightarrow>
   hget key ''status'' (sleep 500 w) = (Inr (Some ''failed''), w2) \<Longrightarrow>
     long_poll env req key timeout_start w =
       (Inr (Response ''Pod creation failed. Please try again.'' 500), w2)"
  "int (now w) - int timeout_start < 90000 \<Longrightarrow>
   hget key ''status'' (sleep 500 w) = (Inr (Some ''ready''), w2) \<Longrightarrow>
   hget key ''ip'' w2 = (Inr pod_ip, w3) \<Longrightarrow>
   store_write (\<lambda>w'. HSet key ''last_active'' (dec (unix_time w'))) w3 = (Inr u, w4) \<Longrightarrow>
     long_poll env req key timeout_start w = proxy_request env pod_ip req w4"
  "int (now w) - int timeout_start < 90000 \<Longrightarrow>
   hget key ''status'' (sleep 500 w) = (Inr new_status, w2) \<Longrightarrow>
   new_status \<noteq> Some ''ready'' \<Longrightarrow> new_status \<noteq> Some ''failed'' \<Longrightarrow>
     long_poll env req key timeout_start w = long_poll env req key timeout_start w2"
  by (simp_all add: long_poll.simps [of env req key timeout_start w])

text \<open>A long poll sleeps some number of times, half a second each, and every sleep but the
  last starts less than 90 seconds after the start of the poll. It writes or sends
  nothing but the touch and the proxied request of the \<open>ready\<close> case.\<close>

lemma long_poll_outcome:
  "long_poll env req key timeout_start w = (r, w') \<Longrightarrow>
   \<exists>n tail. trace w' = trace w @ replicate n (Sleep 500) @ tail \<and>
     (n = 0 \<or> int (now w) + 500 * (int n - 1) < int timeout_start + 90000) \<and>
     poll_outcome env req key timeout_start r w' tail"
proof (induction env req key timeout_start w arbitrary: r w' rule: long_poll.induct)
  case (1 env req key timeout_start w)
  show ?case
  proof (cases "int (now w) - int timeout_start < 90000")
    case False
    with "1.prems" have "r = Inr (Response ''Gateway timeout: Pod creation is taking too long.'' 504)"
      and "w' = w"
      by (simp_all add: long_poll.simps [of env req key timeout_start w])
    with False have "trace w' = trace w @ replicate 0 (Sleep 500) @ []"
      and "poll_outcome env req key timeout_start r w' []"
      by (simp_all add: poll_outcome_def)
    then show ?thesis by blast
  next
    case True
    obtain x w2 where h: "hget key ''status'' (sleep 500 w) = (x, w2)" by fastforce
    have tr2: "trace w2 = trace w @ [Sleep 500]"
      using trace_hget [OF h] by (simp add: sleep_def)
    have now2: "now w + 500 \<le> now w2"
      using now_hget [OF h] by (simp add: sleep_def emit_def)
    have one: "(1::nat) = 0 \<or> int (now w) + 500 * (int 1 - 1) < int timeout_start + 90000"
      using True by simp
    show ?thesis
    proof (cases x)
      case (Inl e)
      with "1.prems" True h have "r = Inl e" "w' = w2"
        by (simp_all add: long_poll.simps [of env req key timeout_start w])
      with tr2 have "trace w' = trace w @ replicate 1 (Sleep 500) @ []"
        and "poll_outcome env req key timeout_start r w' []"
        by (simp_all add: poll_outcome_def)
      with one show ?thesis by blast
    next
      case (Inr new_status)
      show ?thesis
      proof (cases "new_status = Some ''ready''")
        case ready: True
        obtain y w3 where h3: "hget key ''ip'' w2 = (y, w3)" by fastforce
        have tr3: "trace w3 = trace w2" by (rule trace_hget [OF h3])
        show ?thesis
        proof (cases y)
          case (Inl e)
          with "1.prems" True h Inr ready h3 have "r = Inl e" "w' = w3"
            by (simp_all add: long_poll.simps [of env req key timeout_start w])
          with tr2 tr3 have "trace w' = trace w @ replicate 1 (Sleep 500) @ []"
            and "poll_outcome env req key timeout_start r w' []"
            by (simp_all add: poll_outcome_def)
          with one show ?thesis by blast
        next
          case ip: (Inr pod_ip)
          obtain z w4 where h4:
            "store_write (\<lambda>w'. HSet key ''last_active'' (dec (unix_time w'))) w3 = (z, w4)"
            by fastforce
          show ?thesis
          proof (cases z)
            case (Inl e)
            with "1.prems" True h Inr ready h3 ip h4 have "r = Inl e" "w' = w4"
              by (simp_all add: long_poll.simps [of env req key timeout_start w])
            with tr2 tr3 store_write_raises_trace [of _ w3 e w4] h4 Inl
            have "trace w' = trace w @ replicate 1 (Sleep 500) @ []"
              and "poll_outcome env req key timeout_start r w' []"
              by (simp_all add: poll_outcome_def)
            with one show ?thesis by blast
          next
            case u: (Inr u)
            with "1.prems" True h Inr ready h3 ip h4
            have res: "proxy_request env pod_ip req w4 = (r, w')"
              by (simp add: long_poll.simps [of env req key timeout_start w])
            from h4 u obtain t where
              tr4: "trace w4 = trace w3 @ [Write (HSet key ''last_active'' (dec t))]"
              using touch_trace by blast
            let ?tail = "[Write (HSet key ''last_active'' (dec t)),
                          Proxy (''http://'' @ py_str pod_ip @ '':80'' @ url_path req)]"
            from res proxy_request_trace [of env pod_ip req w4] tr4 tr3 tr2
            have "trace w' = trace w @ replicate 1 (Sleep 500) @ ?tail" by simp
            moreover from res have "poll_outcome env req key timeout_start r w' ?tail"
              unfolding poll_outcome_def by (metis fst_conv)
            ultimately show ?thesis using one by blast
          qed
        qed
      next
        case not_ready: False
        show ?thesis
        proof (cases "new_status = Some ''failed''")
          case failed: True
          with "1.prems" \<open>int (now w) - int timeout_start < 90000\<close> h Inr not_ready
          have "r = Inr (Response ''Pod creation failed. Please try again.'' 500)" "w' = w2"
            by (simp_all add: long_poll.simps [of env req key timeout_start w])
          moreover from h Inr failed have "map_of (hash_at (store w2) key) ''status'' = Some ''failed''"
            using hget_value by fastforce
          ultimately have "trace w' = trace w @ replicate 1 (Sleep 500) @ []"
            and "poll_outcome env req key timeout_start r w' []"
            using tr2 by (simp_all add: poll_outcome_def)
          with one show ?thesis by blast
        next
          case again: False
          with "1.prems" \<open>int (now w) - int timeout_start < 90000\<close> h Inr not_ready
          have rec: "long_poll env req key timeout_start w2 = (r, w')"
            by (simp add: long_poll.simps [of env req key timeout_start w])
          from "1.IH" [OF \<open>int (now w) - int timeout_start < 90000\<close> h [symmetric] Inr
              not_ready again rec]
          obtain n tail where
            tr: "trace w' = trace w2 @ replicate n (Sleep 500) @ tail" and
            bound: "n = 0 \<or> int (now w2) + 500 * (int n - 1) < int timeout_start + 90000" and
            out: "poll_outcome env req key timeout_start r w' tail"
            by blast
          from tr tr2 have "trace w' = trace w @ replicate (Suc n) (Sleep 500) @ tail"
            by simp
          moreover from bound now2 \<open>int (now w) - int timeout_start < 90000\<close>
          have "Suc n = 0 \<or> int (now w) + 500 * (int (Suc n) - 1) < int timeout_start + 90000"
            by (cases "n = 0") auto
          ultimately show ?thesis using out by blast
        qed
      qed
    qed
  qed
qed

lemma proxied_proxy_request:
  "proxied env (''http://'' @ py_str pod_ip @ '':80'' @ url_path req)
     (fst (handled (proxy_request env pod_ip req w)))"
  by (auto simp: proxied_def proxy_request_def handled_def Let_def split: sum.splits exn.splits)

lemma fst_handled: "fst (handled (r, w)) = (case r of Inl e \<Rightarrow> respond_to e | Inr x \<Rightarrow> x)"
  by (simp add: handled_def split: sum.splits)

lemma snd_handled: "snd (handled (r, w)) = w"
  by (simp add: handled_def split: sum.splits)

lemma fst_proxy_request_world:
  "fst (proxy_request env pod_ip req w) = fst (proxy_request env pod_ip req w')"
  by (simp add: proxy_request_def Let_def split: sum.splits exn.splits)

lemma trace_hgetall: "hgetall key w = (r, w1) \<Longrightarrow> trace w1 = trace w"
  using trace_store_call [of w]
  by (auto simp: hgetall_def split: prod.splits option.splits)

lemma initiating_entry:
  assumes "x_user_id req = Some uid" and "uid \<noteq> []"
      and "hgetall (session_key uid) (emit Enter w) = (Inr session_data, w1)"
      and "map_of session_data ''status'' = Some ''initiating''"
  shows "handler_body again env req w =
           Some (handled (long_poll env req (session_key uid) (now w1) w1))"
  using assms by (simp add: handler_body_def Let_def)

text \<open>The endings of a request whose record is read as \<open>initiating\<close>, by what the handler
  has done since the read: some sleeps, and then nothing, or the touch and the proxied
  request.\<close>

lemma initiating_request_endings:
  assumes "x_user_id req = Some uid" and "uid \<noteq> []"
      and "hgetall (session_key uid) (emit Enter w) = (Inr session_data, w1)"
      and "map_of session_data ''status'' = Some ''initiating''"
  shows "\<exists>r w' n tail.
           handle_all_requests (Suc fuel) env req w = Some (r, w') \<and>
           events_since w1 w' = replicate n (Sleep 500) @ tail \<and> n \<le> 180 \<and>
           ((r = Response ''Gateway timeout: Pod creation is taking too long.'' 504 \<and> tail = [] \<and>
               90000 \<le> int (now w') - int (now w1))
            \<or> (r = Response ''Pod creation failed. Please try again.'' 500 \<and> tail = [] \<and>
               map_of (hash_at (store w') (session_key uid)) ''status'' = Some ''failed'')
            \<or> (\<exists>t url. tail = [Write (HSet (session_key uid) ''last_active'' (dec t)), Proxy url] \<and>
                  proxied env url r)
            \<or> (\<exists>e. r = respond_to e \<and> tail = []))"
proof -
  let ?key = "session_key uid"
  obtain r0 w' where lp: "long_poll env req ?key (now w1) w1 = (r0, w')" by fastforce
  from long_poll_outcome [OF lp] obtain n tail where
    tr: "trace w' = trace w1 @ replicate n (Sleep 500) @ tail" and
    bound: "n = 0 \<or> int (now w1) + 500 * (int n - 1) < int (now w1) + 90000" and
    out: "poll_outcome env req ?key (now w1) r0 w' tail"
    by blast
  let ?r = "case r0 of Inl e \<Rightarrow> respond_to e | Inr x \<Rightarrow> x"
  have run: "handle_all_requests (Suc fuel) env req w = Some (?r, w')"
    using initiating_entry [OF assms] lp by (simp add: handled_def split: sum.splits)
  have ev: "events_since w1 w' = replicate n (Sleep 500) @ tail"
    using tr by (simp add: events_since_def)
  have n: "n \<le> 180" using bound by auto
  from out have
    "(?r = Response ''Gateway timeout: Pod creation is taking too long.'' 504 \<and> tail = [] \<and>
        90000 \<le> int (now w') - int (now w1))
     \<or> (?r = Response ''Pod creation failed. Please try again.'' 500 \<and> tail = [] \<and>
        map_of (hash_at (store w') ?key) ''status'' = Some ''failed'')
     \<or> (\<exists>t url. tail = [Write (HSet ?key ''last_active'' (dec t)), Proxy url] \<and>
           proxied env url ?r)
     \<or> (\<exists>e. ?r = respond_to e \<and> tail = [])"
    unfolding poll_outcome_def
  proof (elim disjE exE conjE)
    fix t pod_ip w4
    assume tail: "tail = [Write (HSet ?key ''last_active'' (dec t)),
                          Proxy (''http://'' @ py_str pod_ip @ '':80'' @ url_path req)]"
      and r0: "r0 = fst (proxy_request env pod_ip req w4)"
    have "proxied env (''http://'' @ py_str pod_ip @ '':80'' @ url_path req) ?r"
      using proxied_proxy_request [of env pod_ip req w4] r0
      by (cases "proxy_request env pod_ip req w4") (simp add: fst_handled)
    with tail show ?thesis by blast
  qed auto
  with run ev n show ?thesis by blast
qed

subsection \<open>The long poll, round by round\<close>

lemma now_status_read: "now w + 500 \<le> now (snd (status_read key w))"
  using now_hget [of key "''status''" "sleep 500 w"]
  by (cases "hget key ''status'' (sleep 500 w)") (simp add: status_read_def sleep_def emit_def)

lemma trace_status_read: "trace (snd (status_read key w)) = trace w @ [Sleep 500]"
  using trace_hget [of key "''status''" "sleep 500 w"]
  by (cases "hget key ''status'' (sleep 500 w)") (simp add: status_read_def sleep_def)

lemma now_after_rounds: "now w + 500 * i \<le> now (after_rounds key i w)"
proof (induction i arbitrary: w)
  case 0 show ?case by simp
next
  case (Suc i)
  from Suc [of "snd (status_read key w)"] now_status_read [of w key]
  show ?case by simp
qed

lemma trace_after_rounds: "trace (after_rounds key i w) = trace w @ replicate i (Sleep 500)"
proof (induction i arbitrary: w)
  case 0 show ?case by simp
next
  case (Suc i)
  show ?case
    by (simp add: Suc trace_status_read replicate_app_Cons_same)
qed

lemma ready_round:
  assumes "hget key ''ip'' w2 = (Inr pod_ip, w3)" and "store_call w3 = (None, w4)"
  shows "store_write (\<lambda>w'. HSet key ''last_active'' (dec (unix_time w'))) w3 =
           (Inr (), emit (Write (HSet key ''last_active'' (dec (unix_time w4))))
              (w4\<lparr>store := exec_cmd (HSet key ''last_active'' (dec (unix_time w4))) (store w4)\<rparr>))"
  using assms by (simp add: store_write_def)

lemma long_poll_round:
  "poll_ends env req key timeout_start w (handled (long_poll env req key timeout_start w)) \<or>
   (int (now w) - int timeout_start < 90000 \<and>
    (\<exists>v. fst (status_read key w) = Inr v \<and> v \<noteq> Some ''ready'' \<and> v \<noteq> Some ''failed'') \<and>
    long_poll env req key timeout_start w =
      long_poll env req key timeout_start (snd (status_read key w)))"
proof (cases "int (now w) - int timeout_start < 90000")
  case False
  then show ?thesis
    by (simp add: poll_ends_def long_poll.simps [of env req key timeout_start w] handled_def)
next
  case True
  obtain x w2 where h: "hget key ''status'' (sleep 500 w) = (x, w2)" by fastforce
  show ?thesis
  proof (cases x)
    case (Inl e)
    with True h show ?thesis
      by (simp add: poll_ends_def status_read_def long_poll.simps [of env req key timeout_start w]
          handled_def)
  next
    case (Inr v)
    consider (ready) "v = Some ''ready''" | (failed) "v = Some ''failed''"
      | (other) "v \<noteq> Some ''ready''" "v \<noteq> Some ''failed''" by blast
    then show ?thesis
    proof cases
      case failed
      with True h Inr show ?thesis
        by (simp add: poll_ends_def status_read_def
            long_poll.simps [of env req key timeout_start w] handled_def)
    next
      case other
      with True h Inr show ?thesis
        by (simp add: status_read_def long_poll.simps [of env req key timeout_start w])
    next
      case ready
      obtain y w3 where h3: "hget key ''ip'' w2 = (y, w3)" by fastforce
      show ?thesis
      proof (cases y)
        case (Inl e)
        with True h Inr ready h3 show ?thesis
          by (simp add: poll_ends_def status_read_def
              long_poll.simps [of env req key timeout_start w] handled_def)
      next
        case ip: (Inr pod_ip)
        obtain z w4 where c: "store_call w3 = (z, w4)" by fastforce
        show ?thesis
        proof (cases z)
          case (Some e)
          with True h Inr ready h3 ip c show ?thesis
            by (simp add: poll_ends_def status_read_def store_write_def
                long_poll.simps [of env req key timeout_start w] handled_def)
        next
          case None
          let ?c = "HSet key ''last_active'' (dec (unix_time w4))"
          let ?w5 = "emit (Write ?c) (w4\<lparr>store := exec_cmd ?c (store w4)\<rparr>)"
          let ?url = "''http://'' @ py_str pod_ip @ '':80'' @ url_path req"
          let ?out = "handled (proxy_request env pod_ip req ?w5)"
          have lp: "long_poll env req key timeout_start w = proxy_request env pod_ip req ?w5"
            using True h Inr ready h3 ip c None
            by (simp add: store_write_def long_poll.simps [of env req key timeout_start w])
          have w5: "snd ?out = emit (Proxy ?url) ?w5"
            by (simp add: proxy_request_def handled_def Let_def split: sum.splits exn.splits)
          have tr: "trace w4 = trace w2"
            using trace_hget [OF h3] trace_store_call [of w3] c by simp
          have "store (snd ?out) = exec_cmd ?c (store w4)" unfolding w5 by simp
          moreover have "events_since w2 (snd ?out) = [Write ?c, Proxy ?url]"
            unfolding w5 by (simp add: events_since_def tr)
          moreover have "proxied env ?url (fst ?out)" by (rule proxied_proxy_request)
          ultimately have "poll_ends env req key timeout_start w ?out"
            using True h Inr ready h3 ip c None
            by (simp add: poll_ends_def status_read_def)
          then show ?thesis unfolding lp by simp
        qed
      qed
    qed
  qed
qed

lemma long_poll_rounds:
  "\<exists>n. (\<forall>i<n. int (now (after_rounds key i w)) - int timeout_start < 90000 \<and>
              (\<exists>v. fst (status_read key (after_rounds key i w)) = Inr v \<and>
                   v \<noteq> Some ''ready'' \<and> v \<noteq> Some ''failed'')) \<and>
        poll_ends env req key timeout_start (after_rounds key n w)
          (handled (long_poll env req key timeout_start w))"
proof (induction env req key timeout_start w rule: long_poll.induct)
  case (1 env req key timeout_start w)
  from long_poll_round [of env req key timeout_start w] show ?case
  proof (elim disjE conjE exE)
    assume "poll_ends env req key timeout_start w (handled (long_poll env req key timeout_start w))"
    then show ?thesis by (intro exI [of _ 0]) simp
  next
    fix v
    assume running: "int (now w) - int timeout_start < 90000"
      and v: "fst (status_read key w) = Inr v" "v \<noteq> Some ''ready''" "v \<noteq> Some ''failed''"
      and rec: "long_poll env req key timeout_start w =
                  long_poll env req key timeout_start (snd (status_read key w))"
    let ?w2 = "snd (status_read key w)"
    have h: "(Inr v, ?w2) = hget key ''status'' (sleep 500 w)"
      using v(1) by (simp add: status_read_def prod_eq_iff)
    from "1.IH" [OF running h refl v(2,3)] obtain n where
      cont: "\<forall>i<n. int (now (after_rounds key i ?w2)) - int timeout_start < 90000 \<and>
              (\<exists>v. fst (status_read key (after_rounds key i ?w2)) = Inr v \<and>
                   v \<noteq> Some ''ready'' \<and> v \<noteq> Some ''failed'')" and
      fin: "poll_ends env req key timeout_start (after_rounds key n ?w2)
              (handled (long_poll env req key timeout_start ?w2))"
      by blast
    have "\<forall>i<Suc n. int (now (after_rounds key i w)) - int timeout_start < 90000 \<and>
              (\<exists>v. fst (status_read key (after_rounds key i w)) = Inr v \<and>
                   v \<noteq> Some ''ready'' \<and> v \<noteq> Some ''failed'')"
    proof (intro allI impI)
      fix i assume "i < Suc n"
      show "int (now (after_rounds key i w)) - int timeout_start < 90000 \<and>
              (\<exists>v. fst (status_read key (after_rounds key i w)) = Inr v \<and>
                   v \<noteq> Some ''ready'' \<and> v \<noteq> Some ''failed'')"
      proof (cases i)
        case 0
        with running v show ?thesis by simp
      next
        case (Suc j)
        with \<open>i < Suc n\<close> cont show ?thesis by simp
      qed
    qed
    moreover have "poll_ends env req key timeout_start (after_rounds key (Suc n) w)
          (handled (long_poll env req key timeout_start w))"
      using fin rec by simp
    ultimately show ?thesis by blast
  qed
qed

text \<open>
  C6. A request whose record is read as \<open>initiating\<close>, whatever the other components do to
  the store in the meantime and whichever store calls fail: the handler returns, and what
  it returns is decided by what it reads. In each round it sleeps 500 ms and reads the
  status again. For some \<open>n\<close>, at most 180, the first \<open>n\<close> rounds start less than 90 seconds
  after the record was read and read a status that is neither \<open>ready\<close> nor \<open>failed\<close>; they
  leave \<open>n\<close> sleeps of 500 ms behind; and then the poll ends (\<open>poll_ends\<close>):
  \<^item> when 90 seconds or more have passed, with 504 and without another read;
  \<^item> otherwise with one more round, which reads \<open>failed\<close> and answers 500, or reads
    \<open>ready\<close>, reads the address, writes \<open>last_active\<close> and sends the request to the sandbox
    at that address, whose answer it returns;
  \<^item> or with the handler's answer to the exception that one of these store calls raised.
\<close>

theorem initiating_request_polls_until_settled:
  assumes "x_user_id req = Some uid" and "uid \<noteq> []"
      and "hgetall (session_key uid) (emit Enter w) = (Inr session_data, w1)"
      and "map_of session_data ''status'' = Some ''initiating''"
  shows "\<exists>n out.
           n \<le> 180 \<and>
           handle_all_requests (Suc fuel) env req w = Some out \<and>
           (\<forall>i<n. int (now (after_rounds (session_key uid) i w1)) - int (now w1) < 90000 \<and>
                  (\<exists>v. fst (status_read (session_key uid) (after_rounds (session_key uid) i w1)) =
                         Inr v \<and> v \<noteq> Some ''ready'' \<and> v \<noteq> Some ''failed'')) \<and>
           events_since w1 (after_rounds (session_key uid) n w1) = replicate n (Sleep 500) \<and>
           poll_ends env req (session_key uid) (now w1) (after_rounds (session_key uid) n w1) out"
proof -
  let ?key = "session_key uid"
  let ?out = "handled (long_poll env req ?key (now w1) w1)"
  from long_poll_rounds [of ?key w1 "now w1" env req] obtain n where
    cont: "\<forall>i<n. int (now (after_rounds ?key i w1)) - int (now w1) < 90000 \<and>
              (\<exists>v. fst (status_read ?key (after_rounds ?key i w1)) = Inr v \<and>
                   v \<noteq> Some ''ready'' \<and> v \<noteq> Some ''failed'')" and
    fin: "poll_ends env req ?key (now w1) (after_rounds ?key n w1) ?out"
    by blast
  have run: "handle_all_requests (Suc fuel) env req w = Some ?out"
    using initiating_entry [OF assms] by simp
  have n: "n \<le> 180"
  proof (cases n)
    case 0 then show ?thesis by simp
  next
    case (Suc m)
    with cont have "int (now (after_rounds ?key m w1)) - int (now w1) < 90000" by simp
    with now_after_rounds [of w1 m ?key] have "500 * m < 90000" by simp
    with Suc show ?thesis by simp
  qed
  have ev: "events_since w1 (after_rounds ?key n w1) = replicate n (Sleep 500)"
    by (simp add: events_since_def trace_after_rounds)
  from n run cont ev fin show ?thesis by blast
qed

text \<open>The Worker marks the session of \<open>alice\<close> ready during the first sleep: the first
  status read sees \<open>ready\<close>, and the request is proxied to the address the Worker wrote.\<close>

lemma hgetall_polling_world:
  "hgetall (session_key ''alice'') (emit Enter polling_world) =
     (Inr [(''status'', ''initiating'')],
      polling_world\<lparr>script := tl (script polling_world), trace := [Enter]\<rparr>)"
  by (simp add: hgetall_def store_call_def emit_def polling_world_def hash_at_def
      session_key_def)

lemma status_read_polling_world:
  "status_read ''session:alice''
     (polling_world\<lparr>script := tl (script polling_world), trace := [Enter]\<rparr>) =
   (Inr (Some ''ready''),
    \<lparr>store = [(''session:alice'',
        [(''status'', ''ready''), (''ip'', ''10.0.0.7''), (''last_active'', ''1701'')])],
      now = 1702000, script = [], trace = [Enter, Sleep 500]\<rparr>)"
  by (simp add: status_read_def hget_def sleep_def store_call_def emit_def polling_world_def
      hash_at_def)

lemma ip_read_polling_world:
  "hget ''session:alice'' ''ip''
     \<lparr>store = [(''session:alice'',
        [(''status'', ''ready''), (''ip'', ''10.0.0.7''), (''last_active'', ''1701'')])],
      now = 1702000, script = [], trace = [Enter, Sleep 500]\<rparr> =
   (Inr (Some ''10.0.0.7''),
    \<lparr>store = [(''session:alice'',
        [(''status'', ''ready''), (''ip'', ''10.0.0.7''), (''last_active'', ''1701'')])],
      now = 1702000, script = [], trace = [Enter, Sleep 500]\<rparr>)"
  by (simp add: hget_def store_call_def hash_at_def)

theorem initiating_request_polls_until_settled_witness:
  "\<exists>out. handle_all_requests (Suc 0) up_ok req_alice polling_world = Some out \<and>
         fst out = StreamingResponse 200 \<and>
         store (snd out) =
           [(''session:alice'',
             [(''status'', ''ready''), (''ip'', ''10.0.0.7''), (''last_active'', ''1702'')])]"
proof -
  let ?w1 = "polling_world\<lparr>script := tl (script polling_world), trace := [Enter]\<rparr>"
  let ?w2 = "\<lparr>store = [(''session:alice'',
        [(''status'', ''ready''), (''ip'', ''10.0.0.7''), (''last_active'', ''1701'')])],
      now = 1702000, script = [], trace = [Enter, Sleep 500]\<rparr>"
  have pre: "x_user_id req_alice = Some ''alice''" "''alice'' \<noteq> []"
    "map_of [(''status'', ''initiating'')] ''status'' = Some ''initiating''"
    by (simp_all add: req_alice_def)
  from initiating_request_polls_until_settled
    [OF pre(1,2) hgetall_polling_world pre(3), of 0 up_ok]
  obtain n out where
    run: "handle_all_requests (Suc 0) up_ok req_alice polling_world = Some out" and
    cont: "\<forall>i<n. int (now (after_rounds ''session:alice'' i ?w1)) - int (now ?w1) < 90000 \<and>
            (\<exists>v. fst (status_read ''session:alice'' (after_rounds ''session:alice'' i ?w1)) = Inr v \<and>
                 v \<noteq> Some ''ready'' \<and> v \<noteq> Some ''failed'')" and
    fin: "poll_ends up_ok req_alice ''session:alice'' (now ?w1)
            (after_rounds ''session:alice'' n ?w1) out"
    unfolding session_key_alice by blast
  have "n = 0"
  proof (rule ccontr)
    assume "n \<noteq> 0"
    with cont have "\<exists>v. fst (status_read ''session:alice'' (after_rounds ''session:alice'' 0 ?w1)) = Inr v \<and>
                 v \<noteq> Some ''ready'' \<and> v \<noteq> Some ''failed''" by blast
    then show False by (simp add: status_read_polling_world)
  qed
  with fin have "poll_ends up_ok req_alice ''session:alice'' (now ?w1) ?w1 out" by simp
  then have "store (snd out) =
       exec_cmd (HSet ''session:alice'' ''last_active'' (dec (unix_time ?w2))) (store ?w2) \<and>
     proxied up_ok (''http://'' @ py_str (Some ''10.0.0.7'') @ '':80'' @ url_path req_alice) (fst out)"
    by (simp add: poll_ends_def status_read_polling_world ip_read_polling_world store_call_def)
  then have "store (snd out) =
           [(''session:alice'',
             [(''status'', ''ready''), (''ip'', ''10.0.0.7''), (''last_active'', ''1702'')])]"
    and "fst out = StreamingResponse 200"
    by (simp_all add: unix_time_def dec_1702 hash_at_def proxied_def up_ok_def)
  with run show ?thesis by blast
qed

section \<open>The Gateway: entering the handler again\<close>

lemma entries_simps [simp]:
  "entries [] = 0" "entries (Enter # evs) = Suc (entries evs)"
  "entries (Write c # evs) = entries evs" "entries (Publish u x # evs) = entries evs"
  "entries (Proxy url # evs) = entries evs" "entries (Sleep ms # evs) = entries evs"
  "entries (xs @ ys) = entries xs + entries ys"
  "entries (replicate n (Sleep ms)) = 0"
  by (simp_all add: entries_def)

lemma transitions_simps [simp]:
  "transitions [] = 0" "transitions (Enter # evs) = transitions evs"
  "transitions (Write (HSet key field v) # evs) =
     (if field = ''status'' then Suc (transitions evs) else transitions evs)"
  "transitions (Write (Del key) # evs) = Suc (transitions evs)"
  "transitions (Publish u x # evs) = transitions evs"
  "transitions (Proxy url # evs) = transitions evs" "transitions (Sleep ms # evs) = transitions evs"
  "transitions (xs @ ys) = transitions xs + transitions ys"
  "transitions (replicate n (Sleep ms)) = 0"
  by (simp_all add: transitions_def)

lemma settles_mono:
  assumes "settles n k env req w" and "n \<le> n'" and "k \<le> k'"
  shows "settles n' k' env req w"
proof -
  from assms(1) obtain r w' evs where
    run: "\<And>fuel. handle_all_requests (n + fuel) env req w = Some (r, w')" and
    rest: "trace w' = trace w @ evs" "entries evs \<le> n" "transitions evs \<le> k"
    unfolding settles_def by blast
  have "handle_all_requests (n' + fuel) env req w = Some (r, w')" for fuel
    using run [of "n' - n + fuel"] assms(2) by simp
  with rest assms(2,3) show ?thesis unfolding settles_def
    by (intro exI [of _ r] exI [of _ w'] exI [of _ evs]) auto
qed

lemma settles_return:
  assumes "\<And>again. handler_body again env req w = Some (r, w')"
      and "trace w' = trace w @ evs" and "entries evs \<le> 1" and "transitions evs \<le> k"
  shows "settles 1 k env req w"
  unfolding settles_def using assms
  by (intro exI [of _ r] exI [of _ w'] exI [of _ evs]) simp

lemma settles_reenter:
  assumes "\<And>again. handler_body again env req w = again w2"
      and "trace w2 = trace w @ evs0" and "entries evs0 = 1"
      and "settles n k env req w2"
  shows "settles (Suc n) (transitions evs0 + k) env req w"
proof -
  from assms(4) obtain r w' evs where
    run: "\<And>fuel. handle_all_requests (n + fuel) env req w2 = Some (r, w')" and
    rest: "trace w' = trace w2 @ evs" "entries evs \<le> n" "transitions evs \<le> k"
    unfolding settles_def by blast
  have "handle_all_requests (Suc n + fuel) env req w = Some (r, w')" for fuel
    using assms(1) run by simp
  with rest assms(2,3) show ?thesis unfolding settles_def
    by (intro exI [of _ r] exI [of _ w'] exI [of _ "evs0 @ evs"]) auto
qed

lemma status_after_hset:
  "map_of (hash_at (AList.update key (AList.update f v h) r) key) f = Some v"
  by (simp add: hash_at_update_same AList.update_conv')

lemma status_after_del: "map_of (hash_at (AList.delete key r) key) f = None"
  by (simp add: hash_at_def AList.delete_conv)

lemma trace_handled_proxy:
  "trace (snd (handled (proxy_request env pod_ip req w))) =
     trace w @ [Proxy (''http://'' @ py_str pod_ip @ '':80'' @ url_path req)]"
  using proxy_request_trace [of env pod_ip req w]
  by (cases "proxy_request env pod_ip req w") (simp add: handled_def split: sum.splits)

lemma settles_no_identity:
  assumes "x_user_id req = None \<or> x_user_id req = Some []"
  shows "settles 1 0 env req w"
proof (rule settles_return)
  show "handler_body again env req w =
          Some (Response ''X-User-ID header is required.'' 400, emit Enter w)" for again
    using assms by (auto simp: handler_body_def Let_def)
  show "trace (emit Enter w) = trace w @ [Enter]" by simp
qed simp_all

lemma settles_ready:
  assumes "x_user_id req = Some uid" and "uid \<noteq> []" and "calm w"
      and "map_of (hash_at (store w) (session_key uid)) ''status'' = Some ''ready''"
  shows "settles 1 0 env req w"
proof (cases "\<exists>pod_ip. map_of (hash_at (store w) (session_key uid)) ''ip'' = Some pod_ip \<and> pod_ip \<noteq> []")
  case True
  then obtain pod_ip where ip: "map_of (hash_at (store w) (session_key uid)) ''ip'' = Some pod_ip"
    "pod_ip \<noteq> []" by blast
  let ?w2 = "emit (Write (HSet (session_key uid) ''last_active''
                (dec (unix_time (after_call (after_call (emit Enter w)))))))
          ((after_call (after_call (emit Enter w)))
             \<lparr>store := exec_cmd (HSet (session_key uid) ''last_active''
                (dec (unix_time (after_call (after_call (emit Enter w)))))) (store w)\<rparr>)"
  let ?rw = "handled (proxy_request env (Some pod_ip) req ?w2)"
  show ?thesis
  proof (rule settles_return)
    show "handler_body again env req w = Some (fst ?rw, snd ?rw)" for again
      using ready_entry_calm [OF assms(1-4) ip] by simp
    show "trace (snd ?rw) = trace w @
        [Enter, Write (HSet (session_key uid) ''last_active''
                (dec (unix_time (after_call (after_call (emit Enter w)))))),
         Proxy (''http://'' @ py_str (Some pod_ip) @ '':80'' @ url_path req)]"
      unfolding trace_handled_proxy by simp
  qed simp_all
next
  case False
  show ?thesis
  proof (rule settles_return)
    show "handler_body again env req w =
        Some (Response ''Session 'ready' but no IP. Please retry.'' 500, after_call (emit Enter w))"
      for again
      using assms False
      by (auto simp: handler_body_def hgetall_calm Let_def split: option.splits)
    show "trace (after_call (emit Enter w)) = trace w @ [Enter]" by simp
  qed simp_all
qed

lemma settles_other:
  assumes "x_user_id req = Some uid" and "uid \<noteq> []" and "calm w"
      and "map_of (hash_at (store w) (session_key uid)) ''status'' = Some s"
      and "s \<noteq> ''ready''" and "s \<noteq> ''initiating''" and "s \<noteq> ''failed''"
  shows "settles 1 0 env req w"
proof (rule settles_return)
  show "handler_body again env req w = Some (Response ''null'' 200, after_call (emit Enter w))"
    for again
    using assms by (simp add: handler_body_def hgetall_calm Let_def)
  show "trace (after_call (emit Enter w)) = trace w @ [Enter]" by simp
qed simp_all

lemma settles_initiating:
  assumes "x_user_id req = Some uid" and "uid \<noteq> []" and "calm w"
      and "map_of (hash_at (store w) (session_key uid)) ''status'' = Some ''initiating''"
  shows "settles 1 0 env req w"
proof -
  let ?key = "session_key uid"
  let ?w1 = "after_call (emit Enter w)"
  obtain r0 w' where lp: "long_poll env req ?key (now ?w1) ?w1 = (r0, w')" by fastforce
  from long_poll_outcome [OF lp] obtain n tail where
    tr: "trace w' = trace ?w1 @ replicate n (Sleep 500) @ tail" and
    out: "poll_outcome env req ?key (now ?w1) r0 w' tail"
    by blast
  from out have tail: "entries tail = 0 \<and> transitions tail = 0"
    unfolding poll_outcome_def by auto
  have h: "hgetall ?key (emit Enter w) = (Inr (hash_at (store w) ?key), ?w1)"
    using assms(3) by (simp add: hgetall_calm)
  show ?thesis
  proof (rule settles_return)
    show "handler_body again env req w =
            Some (case r0 of Inl e \<Rightarrow> respond_to e | Inr x \<Rightarrow> x, w')" for again
      using initiating_entry [OF assms(1,2) h assms(4)] lp
      by (simp add: handled_def split: sum.splits)
    show "trace w' = trace w @ (Enter # replicate n (Sleep 500) @ tail)"
      using tr by simp
  qed (simp_all add: tail)
qed

lemma settles_absent:
  assumes "x_user_id req = Some uid" and "uid \<noteq> []" and "calm w"
      and "map_of (hash_at (store w) (session_key uid)) ''status'' = None"
  shows "settles 2 2 env req w"
proof -
  let ?key = "session_key uid"
  let ?w1 = "after_call (emit Enter w)"
  let ?w2 = "emit (Write (HSet ?key ''status'' ''initiating''))
               ((after_call ?w1)\<lparr>store := exec_cmd (HSet ?key ''status'' ''initiating'') (store w)\<rparr>)"
  let ?w3 = "emit (Publish uid (publish env uid)) ?w2"
  show ?thesis
  proof (cases "publish env uid")
    case None
    have "settles 1 0 env req ?w3"
      by (rule settles_initiating [OF assms(1,2)]) (simp_all add: assms(3) status_after_hset)
    moreover have "handler_body again env req w = again ?w3" for again
      using assms None
      by (simp add: handler_body_def hgetall_calm store_write_calm publish_creation_request_def
          Let_def)
    moreover have "trace ?w3 = trace w @ [Enter, Write (HSet ?key ''status'' ''initiating''),
        Publish uid (publish env uid)]"
      by simp
    ultimately have "settles (Suc 1) (transitions [Enter, Write (HSet ?key ''status'' ''initiating''),
        Publish uid (publish env uid)] + 0) env req w"
      by (intro settles_reenter [where ?w2.0 = ?w3]) simp_all
    then show ?thesis by (rule settles_mono) simp_all
  next
    case (Some e)
    let ?w4 = "emit (Write (Del ?key))
                 ((after_call ?w3)\<lparr>store := exec_cmd (Del ?key) (store ?w3)\<rparr>)"
    have "settles 1 2 env req w"
    proof (rule settles_return)
      show "handler_body again env req w =
              Some (Response ''Failed to queue pod creation.'' 500, ?w4)" for again
        using assms Some
        by (simp add: handler_body_def hgetall_calm store_write_calm publish_creation_request_def
            Let_def)
      show "trace ?w4 = trace w @ [Enter, Write (HSet ?key ''status'' ''initiating''),
          Publish uid (publish env uid), Write (Del ?key)]"
        by simp
    qed simp_all
    then show ?thesis by (rule settles_mono) simp_all
  qed
qed

lemma settles_failed:
  assumes "x_user_id req = Some uid" and "uid \<noteq> []" and "calm w"
      and "map_of (hash_at (store w) (session_key uid)) ''status'' = Some ''failed''"
  shows "settles 3 3 env req w"
proof -
  let ?key = "session_key uid"
  let ?w1 = "after_call (emit Enter w)"
  let ?w2 = "emit (Write (Del ?key)) ((after_call ?w1)\<lparr>store := exec_cmd (Del ?key) (store w)\<rparr>)"
  have "settles 2 2 env req ?w2"
    by (rule settles_absent [OF assms(1,2)]) (simp_all add: assms(3) status_after_del)
  moreover have "handler_body again env req w = again ?w2" for again
    using assms by (simp add: handler_body_def hgetall_calm store_write_calm Let_def)
  moreover have "trace ?w2 = trace w @ [Enter, Write (Del ?key)]" by simp
  ultimately have "settles (Suc 2) (transitions [Enter, Write (Del ?key)] + 2) env req w"
    by (intro settles_reenter [where ?w2.0 = ?w2]) simp_all
  then show ?thesis by (simp add: numeral_3_eq_3)
qed

lemma settles_calm:
  assumes "calm w"
  shows "settles 3 3 env req w"
proof (cases "x_user_id req = None \<or> x_user_id req = Some []")
  case True
  then have "settles 1 0 env req w" by (rule settles_no_identity)
  then show ?thesis by (rule settles_mono) simp_all
next
  case False
  then obtain uid where uid: "x_user_id req = Some uid" "uid \<noteq> []" by auto
  show ?thesis
  proof (cases "map_of (hash_at (store w) (session_key uid)) ''status''")
    case None
    from settles_absent [OF uid assms None] show ?thesis by (rule settles_mono) simp_all
  next
    case (Some s)
    consider "s = ''ready''" | "s = ''initiating''" | "s = ''failed''"
      | "s \<noteq> ''ready''" "s \<noteq> ''initiating''" "s \<noteq> ''failed''" by blast
    then show ?thesis
    proof cases
      case 1
      from settles_ready [OF uid assms] Some 1 have "settles 1 0 env req w" by simp
      then show ?thesis by (rule settles_mono) simp_all
    next
      case 2
      from settles_initiating [OF uid assms] Some 2 have "settles 1 0 env req w" by simp
      then show ?thesis by (rule settles_mono) simp_all
    next
      case 3
      from settles_failed [OF uid assms] Some 3 show ?thesis by simp
    next
      case 4
      from settles_other [OF uid assms Some 4] have "settles 1 0 env req w" .
      then show ?thesis by (rule settles_mono) simp_all
    qed
  qed
qed

text \<open>An entry of the handler either returns or enters the handler again, and then it has
  made at least two store calls.\<close>

lemma script_store_call: "script (snd (store_call w)) = tl (script w)"
  by (simp add: store_call_def split: list.splits)

lemma script_hgetall: "hgetall key w = (r, w1) \<Longrightarrow> script w1 = tl (script w)"
  using script_store_call [of w]
  by (auto simp: hgetall_def split: prod.splits option.splits)

lemma script_store_write: "store_write mk w = (r, w1) \<Longrightarrow> script w1 = tl (script w)"
  using script_store_call [of w]
  by (auto simp: store_write_def emit_def split: prod.splits option.splits)

lemma script_emit [simp]: "script (emit e w) = script w"
  by (simp add: emit_def)

lemma script_publish:
  "publish_creation_request env u w = (r, w1) \<Longrightarrow> script w1 = script w"
  by (auto simp: publish_creation_request_def Let_def)

lemma handler_body_cases:
  "(\<exists>rw. \<forall>again. handler_body again env req w = Some rw) \<or>
   (\<exists>w2. (\<forall>again. handler_body again env req w = again w2) \<and>
         script w2 = tl (tl (script w)))"
proof (cases "x_user_id req = None \<or> x_user_id req = Some []")
  case True
  then show ?thesis by (auto simp: handler_body_def Let_def)
next
  case False
  then obtain uid where uid: "x_user_id req = Some uid" "uid \<noteq> []" by auto
  let ?key = "session_key uid"
  obtain x w1 where h: "hgetall ?key (emit Enter w) = (x, w1)" by fastforce
  have s1: "script w1 = tl (script w)" using script_hgetall [OF h] by simp
  show ?thesis
  proof (cases x)
    case (Inl e)
    with uid h show ?thesis by (simp add: handler_body_def Let_def)
  next
    case (Inr sd)
    consider (ready) "map_of sd ''status'' = Some ''ready''"
      | (initiating) "map_of sd ''status'' = Some ''initiating''"
      | (absent) "map_of sd ''status'' = None"
      | (failed) "map_of sd ''status'' = Some ''failed''"
      | (other) s where "map_of sd ''status'' = Some s" "s \<noteq> ''ready''" "s \<noteq> ''initiating''"
          "s \<noteq> ''failed''"
      by (cases "map_of sd ''status''") auto
    then show ?thesis
    proof cases
      case ready
      obtain y w2 where t: "store_write (\<lambda>w'. HSet ?key ''last_active'' (dec (unix_time w'))) w1 = (y, w2)"
        by fastforce
      with uid h Inr ready show ?thesis
        by (cases y) (simp_all add: handler_body_def Let_def split: option.splits)
    next
      case initiating
      with uid h Inr show ?thesis by (simp add: handler_body_def Let_def)
    next
      case other
      with uid h Inr show ?thesis by (simp add: handler_body_def Let_def)
    next
      case failed
      obtain y w2 where t: "store_write (\<lambda>_. Del ?key) w1 = (y, w2)" by fastforce
      have s2: "script w2 = tl (tl (script w))" using script_store_write [OF t] s1 by simp
      show ?thesis
      proof (cases y)
        case (Inl e)
        with uid h Inr failed t show ?thesis by (simp add: handler_body_def Let_def)
      next
        case u: (Inr u)
        with uid h Inr failed t have "\<forall>again. handler_body again env req w = again w2"
          by (simp add: handler_body_def Let_def)
        with s2 show ?thesis by blast
      qed
    next
      case absent
      obtain y w2 where t: "store_write (\<lambda>_. HSet ?key ''status'' ''initiating'') w1 = (y, w2)"
        by fastforce
      have s2: "script w2 = tl (tl (script w))" using script_store_write [OF t] s1 by simp
      obtain p w3 where pb: "publish_creation_request env uid w2 = (p, w3)" by fastforce
      have s3: "script w3 = tl (tl (script w))" using script_publish [OF pb] s2 by simp
      obtain z w4 where d: "store_write (\<lambda>_. Del ?key) w3 = (z, w4)" by fastforce
      show ?thesis
      proof (cases y)
        case (Inl e)
        with uid h Inr absent t show ?thesis by (simp add: handler_body_def Let_def)
      next
        case u: (Inr u)
        show ?thesis
        proof (cases p)
          case None
          with uid h Inr absent t u pb have "\<forall>again. handler_body again env req w = again w3"
            by (simp add: handler_body_def Let_def)
          with s3 show ?thesis by blast
        next
          case (Some e)
          with uid h Inr absent t u pb d show ?thesis
            by (cases z) (simp_all add: handler_body_def Let_def)
        qed
      qed
    qed
  qed
qed

lemma calm_nil: "script w = [] \<Longrightarrow> calm w"
  by (simp add: calm_def)

lemma handler_returns:
  "\<exists>n r w'. n \<le> 3 + length (script w) \<and>
     (\<forall>fuel. handle_all_requests (n + fuel) env req w = Some (r, w'))"
proof (induction "length (script w)" arbitrary: w rule: less_induct)
  case less
  show ?case
  proof (cases "script w = []")
    case True
    from settles_calm [OF calm_nil [OF True], of env req] obtain r w' where
      "\<forall>fuel. handle_all_requests (3 + fuel) env req w = Some (r, w')"
      unfolding settles_def by blast
    then show ?thesis by (intro exI [of _ 3] exI [of _ r] exI [of _ w']) simp
  next
    case False
    from handler_body_cases [of env req w] show ?thesis
    proof (elim disjE exE conjE)
      fix rw assume "\<forall>again. handler_body again env req w = Some rw"
      then have "\<forall>fuel. handle_all_requests (1 + fuel) env req w = Some (fst rw, snd rw)"
        by simp
      then show ?thesis
        by (intro exI [of _ 1] exI [of _ "fst rw"] exI [of _ "snd rw"]) simp
    next
      fix w2 assume re: "\<forall>again. handler_body again env req w = again w2"
        and sc: "script w2 = tl (tl (script w))"
      from sc False have lt: "length (script w2) < length (script w)"
        by (cases "script w") auto
      from less [OF lt] obtain n r w' where
        n: "n \<le> 3 + length (script w2)" and
        run: "\<forall>fuel. handle_all_requests (n + fuel) env req w2 = Some (r, w')"
        by blast
      from re run have "\<forall>fuel. handle_all_requests (Suc n + fuel) env req w = Some (r, w')"
        by simp
      moreover from n lt have "Suc n \<le> 3 + length (script w)" by simp
      ultimately show ?thesis by blast
    qed
  qed
qed

lemma calm_failed_world: "calm failed_world"
  by (simp add: calm_def failed_world_def)

text \<open>
  C4, as the code has it. The handler has no bound on its depth; it returns all the same,
  whatever the other components write and whichever store calls fail, because every
  entry that enters the handler again has used up two store calls: with \<open>k\<close> store calls
  during which something else can happen, \<open>3 + k\<close> entries are enough. When the store is
  calm during the request, the handler is entered at most three times, which is a depth
  of 2 (\<open>failed\<close>, then absent, then \<open>initiating\<close>), and makes at most three transitions
  (the delete of the failed record, the write of \<open>initiating\<close>, and the rollback when the
  publish fails).
\<close>

theorem handler_returns_and_calm_depth:
  "(\<exists>n r w'. n \<le> 3 + length (script w) \<and>
      (\<forall>fuel. handle_all_requests (n + fuel) env req w = Some (r, w'))) \<and>
   (calm w \<longrightarrow>
      (\<exists>r w'. (\<forall>fuel. handle_all_requests (3 + fuel) env req w = Some (r, w')) \<and>
         entries (events_since w w') \<le> 3 \<and> transitions (events_since w w') \<le> 3))"
proof (intro conjI impI)
  show "\<exists>n r w'. n \<le> 3 + length (script w) \<and>
      (\<forall>fuel. handle_all_requests (n + fuel) env req w = Some (r, w'))"
    by (rule handler_returns)
next
  assume "calm w"
  from settles_calm [OF this, of env req]
  show "\<exists>r w'. (\<forall>fuel. handle_all_requests (3 + fuel) env req w = Some (r, w')) \<and>
         entries (events_since w w') \<le> 3 \<and> transitions (events_since w w') \<le> 3"
    unfolding settles_def events_since_def by auto
qed

theorem handler_returns_and_calm_depth_witness:
  "(\<exists>n r w'. n \<le> 3 \<and>
      (\<forall>fuel. handle_all_requests (n + fuel) up_ok req_alice failed_world = Some (r, w'))) \<and>
   (\<exists>r w'. (\<forall>fuel. handle_all_requests (3 + fuel) up_ok req_alice failed_world = Some (r, w')) \<and>
      entries (events_since failed_world w') \<le> 3 \<and>
      transitions (events_since failed_world w') \<le> 3)"
  using handler_returns_and_calm_depth [of failed_world up_ok req_alice]
  by (simp add: calm_failed_world) (simp add: failed_world_def)

text \<open>
  C4, as the claim states it, fails. The store has no record of \<open>alice\<close>; the Worker marks
  the session \<open>failed\<close> and later \<open>ready\<close> while the request is handled. Three entries are
  not enough for the handler to return: it is entered four times, a depth of 3, and
  makes three transitions (absent to \<open>initiating\<close>, \<open>failed\<close> to absent, absent to
  \<open>initiating\<close>).
\<close>

lemma churn_entry_1:
  "handler_body again up_ok req_alice churn_world =
     again \<lparr>store = [(''session:alice'', [(''status'', ''initiating'')])], now = 1700000,
       script = [\<lparr>interfere = [HSet ''session:alice'' ''status'' ''failed''], elapse = 0, raises = None\<rparr>,
                calm_step, calm_step, calm_step,
                \<lparr>interfere = [HSetMapping ''session:alice''
                    [(''status'', ''ready''), (''ip'', ''10.0.0.7''), (''last_active'', ''1700'')]],
                  elapse = 0, raises = None\<rparr>],
       trace = [Enter, Write (HSet ''session:alice'' ''status'' ''initiating''),
                Publish ''alice'' None]\<rparr>"
  by (simp add: handler_body_def churn_world_def req_alice_def up_ok_def session_key_def
      hgetall_def store_write_def store_call_def emit_def hash_at_def
      publish_creation_request_def calm_step_def Let_def)

lemma churn_entry_2:
  "handler_body again up_ok req_alice
     \<lparr>store = [(''session:alice'', [(''status'', ''initiating'')])], now = 1700000,
       script = [\<lparr>interfere = [HSet ''session:alice'' ''status'' ''failed''], elapse = 0, raises = None\<rparr>,
                calm_step, calm_step, calm_step,
                \<lparr>interfere = [HSetMapping ''session:alice''
                    [(''status'', ''ready''), (''ip'', ''10.0.0.7''), (''last_active'', ''1700'')]],
                  elapse = 0, raises = None\<rparr>],
       trace = [Enter, Write (HSet ''session:alice'' ''status'' ''initiating''),
                Publish ''alice'' None]\<rparr> =
   again \<lparr>store = [], now = 1700000,
       script = [calm_step, calm_step,
                \<lparr>interfere = [HSetMapping ''session:alice''
                    [(''status'', ''ready''), (''ip'', ''10.0.0.7''), (''last_active'', ''1700'')]],
                  elapse = 0, raises = None\<rparr>],
       trace = [Enter, Write (HSet ''session:alice'' ''status'' ''initiating''),
                Publish ''alice'' None, Enter, Write (Del ''session:alice'')]\<rparr>"
  by (simp add: handler_body_def req_alice_def up_ok_def session_key_def
      hgetall_def store_write_def store_call_def emit_def hash_at_def
      publish_creation_request_def calm_step_def Let_def)

lemma churn_entry_3:
  "handler_body again up_ok req_alice
     \<lparr>store = [], now = 1700000,
       script = [calm_step, calm_step,
                \<lparr>interfere = [HSetMapping ''session:alice''
                    [(''status'', ''ready''), (''ip'', ''10.0.0.7''), (''last_active'', ''1700'')]],
                  elapse = 0, raises = None\<rparr>],
       trace = [Enter, Write (HSet ''session:alice'' ''status'' ''initiating''),
                Publish ''alice'' None, Enter, Write (Del ''session:alice'')]\<rparr> =
   again \<lparr>store = [(''session:alice'', [(''status'', ''initiating'')])], now = 1700000,
       script = [\<lparr>interfere = [HSetMapping ''session:alice''
                    [(''status'', ''ready''), (''ip'', ''10.0.0.7''), (''last_active'', ''1700'')]],
                  elapse = 0, raises = None\<rparr>],
       trace = [Enter, Write (HSet ''session:alice'' ''status'' ''initiating''),
                Publish ''alice'' None, Enter, Write (Del ''session:alice''),
                Enter, Write (HSet ''session:alice'' ''status'' ''initiating''),
                Publish ''alice'' None]\<rparr>"
  by (simp add: handler_body_def req_alice_def up_ok_def session_key_def
      hgetall_def store_write_def store_call_def emit_def hash_at_def
      publish_creation_request_def calm_step_def Let_def)

lemma churn_entry_4:
  "handler_body again up_ok req_alice
     \<lparr>store = [(''session:alice'', [(''status'', ''initiating'')])], now = 1700000,
       script = [\<lparr>interfere = [HSetMapping ''session:alice''
                    [(''status'', ''ready''), (''ip'', ''10.0.0.7''), (''last_active'', ''1700'')]],
                  elapse = 0, raises = None\<rparr>],
       trace = [Enter, Write (HSet ''session:alice'' ''status'' ''initiating''),
                Publish ''alice'' None, Enter, Write (Del ''session:alice''),
                Enter, Write (HSet ''session:alice'' ''status'' ''initiating''),
                Publish ''alice'' None]\<rparr> =
   Some (StreamingResponse 200,
     \<lparr>store = [(''session:alice'',
         [(''status'', ''ready''), (''ip'', ''10.0.0.7''), (''last_active'', ''1700'')])],
       now = 1700000, script = [],
       trace = [Enter, Write (HSet ''session:alice'' ''status'' ''initiating''),
                Publish ''alice'' None, Enter, Write (Del ''session:alice''),
                Enter, Write (HSet ''session:alice'' ''status'' ''initiating''),
                Publish ''alice'' None, Enter,
                Write (HSet ''session:alice'' ''last_active'' ''1700''),
                Proxy ''http://10.0.0.7:80/x'']\<rparr>)"
  by (simp add: handler_body_def req_alice_def up_ok_def session_key_def
      hgetall_def store_write_def store_call_def emit_def hash_at_def
      proxy_request_def handled_def py_str_def unix_time_def dec_1700 Let_def)

theorem interference_forces_fourth_entry:
  "handle_all_requests (Suc (Suc (Suc 0))) up_ok req_alice churn_world = None \<and>
   (\<exists>w'. handle_all_requests (Suc (Suc (Suc (Suc 0)))) up_ok req_alice churn_world =
           Some (StreamingResponse 200, w') \<and>
      events_since churn_world w' =
        [Enter, Write (HSet ''session:alice'' ''status'' ''initiating''), Publish ''alice'' None,
         Enter, Write (Del ''session:alice''),
         Enter, Write (HSet ''session:alice'' ''status'' ''initiating''), Publish ''alice'' None,
         Enter, Write (HSet ''session:alice'' ''last_active'' ''1700''),
         Proxy ''http://10.0.0.7:80/x''] \<and>
      entries (events_since churn_world w') = 4 \<and>
      transitions (events_since churn_world w') = 3)"
proof -
  have three: "handle_all_requests (Suc (Suc (Suc 0))) up_ok req_alice churn_world = None"
    by (simp add: churn_entry_1 churn_entry_2 churn_entry_3)
  have four: "handle_all_requests (Suc (Suc (Suc (Suc 0)))) up_ok req_alice churn_world =
     Some (StreamingResponse 200,
     \<lparr>store = [(''session:alice'',
         [(''status'', ''ready''), (''ip'', ''10.0.0.7''), (''last_active'', ''1700'')])],
       now = 1700000, script = [],
       trace = [Enter, Write (HSet ''session:alice'' ''status'' ''initiating''),
                Publish ''alice'' None, Enter, Write (Del ''session:alice''),
                Enter, Write (HSet ''session:alice'' ''status'' ''initiating''),
                Publish ''alice'' None, Enter,
                Write (HSet ''session:alice'' ''last_active'' ''1700''),
                Proxy ''http://10.0.0.7:80/x'']\<rparr>)"
    by (simp add: churn_entry_1 churn_entry_2 churn_entry_3 churn_entry_4)
  have "trace churn_world = []" by (simp add: churn_world_def)
  then show ?thesis unfolding three four by (simp add: events_since_def)
qed

section \<open>Sandbox names: Worker against Reaper\<close>

lemma lower_underscore: "lower ''_'' = ''_''"
  by (simp add: lower_def lower_char_def)

lemma re_sub_dash_underscore: "re_sub_dash ''_'' = ''-''"
  by (simp add: re_sub_dash_def is_az09_def)

lemma strip_dash_dash: "strip_dash ''-'' = []"
  by (simp add: strip_dash_def)

text \<open>
  C3. The Worker and the Reaper are meant to compute the same sandbox name for an
  identity. For the identity \<open>_\<close> (one underscore) they do not: the sanitized text is
  empty, the Worker falls back to \<open>anonymous\<close>, and the Reaper, which has no fallback,
  names the sandbox \<open>session-\<close>.
\<close>

theorem pod_name_underscore_differs:
  "worker_pod_name ''_'' = ''session-anonymous'' \<and>
   reaper_pod_name (session_key ''_'') = ''session-'' \<and>
   worker_pod_name ''_'' \<noteq> reaper_pod_name (session_key ''_'')"
  by (simp add: worker_pod_name_def reaper_pod_name_def session_key_def sanitize_k8s_name_def
      split_last_def lower_underscore re_sub_dash_underscore strip_dash_dash)

end
